theory Spec2Isabelle
  imports Complex_Main
begin

section \<open>Strings and errors of the Python program\<close>

text \<open>
  A Python \<open>str\<close> is a sequence of Unicode code points, and the regular expressions of
  \<open>vacancy_func.py\<close> work on code points (character ranges, case folding, word
  boundaries). A string is therefore a list of code points; \<open>asc\<close> writes an ASCII
  literal, and Cyrillic literals are written by their code points (U+0430 is 1072,
  U+044F is 1103).
\<close>

type_synonym ustr = "nat list"

definition asc :: "string \<Rightarrow> ustr" where
  "asc s = map of_char s"

text \<open>The exceptions that the modelled functions can raise.\<close>

datatype py_error = KeyError | ValueError | AttributeError | IndexError | ZeroDivisionError

subsection \<open>\<open>str.strip(chars)\<close> and \<open>str.split(sep)\<close>\<close>

definition strip :: "ustr \<Rightarrow> ustr \<Rightarrow> ustr" where
  "strip chars s =
     rev (dropWhile (\<lambda>c. c \<in> set chars) (rev (dropWhile (\<lambda>c. c \<in> set chars) s)))"

text \<open>
  \<open>split_from sep cur s\<close> scans \<open>s\<close> from the left for non-overlapping occurrences of the
  separator; \<open>cur\<close> is the piece read since the last separator. The program only splits at
  the two-character separator \<open>", "\<close>; with an empty separator (where Python raises) no cut
  is made.
\<close>

fun split_from :: "ustr \<Rightarrow> ustr \<Rightarrow> ustr \<Rightarrow> ustr list" where
  "split_from sep cur [] = [cur]"
| "split_from sep cur (c # cs) =
     (if sep \<noteq> [] \<and> take (length sep) (c # cs) = sep
      then cur # split_from sep [] (drop (length sep - 1) cs)
      else split_from sep (cur @ [c]) cs)"

definition split :: "ustr \<Rightarrow> ustr \<Rightarrow> ustr list" where
  "split sep s = split_from sep [] s"

definition comma_space :: ustr where
  "comma_space = asc '', ''"

section \<open>\<open>str_to_list\<close>\<close>

text \<open>
  \<^verbatim>\<open>
  def str_to_list(string):
      if string:
          string = string.strip("[]")
          return [elem.strip("'") for elem in string.split(", ")]
      else:
          return None
  \<close>
  The apostrophe is code point 39.
\<close>

definition str_to_list :: "ustr \<Rightarrow> ustr list option" where
  "str_to_list string =
     (if string \<noteq> []
      then Some (map (strip [39]) (split comma_space (strip (asc ''[]'') string)))
      else None)"

section \<open>The regular expressions of \<open>categorize_vacancy\<close>\<close>

text \<open>
  The six patterns of \<open>categorize_vacancy\<close> are alternatives built from literal letters,
  \<open>.*\<close>, \<open>.+\<close> and \<open>\b\<close>, searched with \<open>re.IGNORECASE\<close>. The model keeps that
  syntax: an alternative is a list of items, a pattern is the list of its alternatives
  (the groups capture nothing that the program reads).
\<close>

datatype item = Chr nat | DotStar | DotPlus | WordB

definition lit :: "string \<Rightarrow> item list" where
  "lit s = map (\<lambda>c. Chr (of_char c)) s"

definition cyr :: "ustr \<Rightarrow> item list" where
  "cyr s = map Chr s"

text \<open>
  Case-insensitive comparison as the engine does it for a lower-case pattern letter: the
  text character is lower-cased (simple lower-case mapping, given here for the Latin and
  Cyrillic capitals, U+0130 and U+212A, the only code points that lower-case to a letter
  of the patterns) and compared with the pattern letter and with the engine's extra case
  equivalents of that letter (dotless i, long s, and the Cyrillic letter variants
  U+1C80 to U+1C86).
\<close>

definition lower_cp :: "nat \<Rightarrow> nat" where
  "lower_cp c =
     (if 65 \<le> c \<and> c \<le> 90 then c + 32
      else if 1040 \<le> c \<and> c \<le> 1071 then c + 32
      else if c = 304 then 105
      else if c = 8490 then 107
      else c)"

definition case_extras :: "nat \<Rightarrow> nat list" where
  "case_extras p =
     (if p = 105 then [305]
      else if p = 115 then [383]
      else if p = 1074 then [7296]
      else if p = 1076 then [7297]
      else if p = 1086 then [7298]
      else if p = 1089 then [7299]
      else if p = 1090 then [7300, 7301]
      else if p = 1098 then [7302]
      else [])"

definition ci_match :: "nat \<Rightarrow> nat \<Rightarrow> bool" where
  "ci_match p c = (lower_cp c = p \<or> lower_cp c \<in> set (case_extras p))"

text \<open>
  Word characters (\<open>\w\<close>): alphanumeric or underscore. The table covers Basic Latin,
  Latin-1 Supplement, Latin Extended-A and the Cyrillic blocks; code points beyond them
  are taken as non-word characters.
\<close>

definition is_word :: "nat \<Rightarrow> bool" where
  "is_word c =
     ((48 \<le> c \<and> c \<le> 57) \<or> (65 \<le> c \<and> c \<le> 90) \<or> c = 95 \<or> (97 \<le> c \<and> c \<le> 122)
      \<or> c = 170 \<or> c = 178 \<or> c = 179 \<or> c = 181 \<or> c = 185 \<or> c = 186
      \<or> (188 \<le> c \<and> c \<le> 190) \<or> (192 \<le> c \<and> c \<le> 214) \<or> (216 \<le> c \<and> c \<le> 246)
      \<or> (248 \<le> c \<and> c \<le> 383)
      \<or> (1024 \<le> c \<and> c \<le> 1153) \<or> (1162 \<le> c \<and> c \<le> 1327)
      \<or> (7296 \<le> c \<and> c \<le> 7304))"

fun word_before :: "nat option \<Rightarrow> bool" where
  "word_before None = False"
| "word_before (Some c) = is_word c"

fun word_after :: "ustr \<Rightarrow> bool" where
  "word_after [] = False"
| "word_after (c # s) = is_word c"

text \<open>
  \<open>match_here r prev s\<close>: the items \<open>r\<close> match a prefix of \<open>s\<close>, where \<open>prev\<close> is the
  character before \<open>s\<close> in the whole text (for \<open>\b\<close>). The dot matches every character
  but the newline (code point 10). \<open>search_from\<close> tries every start position, as
  \<open>re.search\<close> does; the program only tests whether a match exists.
\<close>

fun match_here :: "item list \<Rightarrow> nat option \<Rightarrow> ustr \<Rightarrow> bool" where
  "match_here [] prev s = True"
| "match_here (Chr p # r) prev [] = False"
| "match_here (Chr p # r) prev (c # s) = (ci_match p c \<and> match_here r (Some c) s)"
| "match_here (DotStar # r) prev [] = match_here r prev []"
| "match_here (DotStar # r) prev (c # s) =
     ((c \<noteq> 10 \<and> match_here (DotStar # r) (Some c) s) \<or> match_here r prev (c # s))"
| "match_here (DotPlus # r) prev [] = False"
| "match_here (DotPlus # r) prev (c # s) = (c \<noteq> 10 \<and> match_here (DotStar # r) (Some c) s)"
| "match_here (WordB # r) prev s =
     (word_before prev \<noteq> word_after s \<and> match_here r prev s)"

fun search_from :: "item list list \<Rightarrow> nat option \<Rightarrow> ustr \<Rightarrow> bool" where
  "search_from alts prev [] = list_ex (\<lambda>r. match_here r prev []) alts"
| "search_from alts prev (c # s) =
     (list_ex (\<lambda>r. match_here r prev (c # s)) alts \<or> search_from alts (Some c) s)"

definition re_search :: "item list list \<Rightarrow> ustr \<Rightarrow> bool" where
  "re_search alts s = search_from alts None s"

subsection \<open>The patterns, in source order\<close>

text \<open>
  Cyrillic words by code point: \<open>anal\<close> 1072 1085 1072 1083, \<open>dan\<close> 1076 1072 1085,
  \<open>prod\<close> 1087 1088 1086 1076, \<open>produkt\<close> 1087 1088 1086 1076 1091 1082 1090,
  \<open>veb\<close> 1074 1077 1073, \<open>inzhen\<close> 1080 1085 1078 1077 1085.
\<close>

definition cy_anal :: ustr where "cy_anal = [1072, 1085, 1072, 1083]"
definition cy_dan :: ustr where "cy_dan = [1076, 1072, 1085]"
definition cy_prod :: ustr where "cy_prod = [1087, 1088, 1086, 1076]"
definition cy_produkt :: ustr where "cy_produkt = [1087, 1088, 1086, 1076, 1091, 1082, 1090]"
definition cy_veb :: ustr where "cy_veb = [1074, 1077, 1073]"
definition cy_inzhen :: ustr where "cy_inzhen = [1080, 1085, 1078, 1077, 1085]"

definition rx_data_analyst :: "item list list" where
  "rx_data_analyst =
     [DotStar # lit ''data'' @ DotPlus # lit ''anal'' @ [DotStar],
      DotStar # lit ''data'' @ DotPlus # cyr cy_anal @ [DotStar],
      DotStar # cyr cy_anal @ DotStar # cyr cy_dan @ [DotStar],
      WordB # lit ''da'' @ [WordB]]"

definition rx_bi_analyst :: "item list list" where
  "rx_bi_analyst =
     [DotStar # lit ''bi'' @ DotPlus # lit ''anal'' @ [DotStar],
      WordB # lit ''bi'' @ [WordB],
      DotStar # lit ''bi'' @ DotPlus # cyr cy_anal @ [DotStar],
      DotStar # cyr cy_anal @ DotStar # lit ''bi'' @ [DotStar]]"

definition rx_product_analyst :: "item list list" where
  "rx_product_analyst =
     [DotStar # lit ''product'' @ [DotStar],
      DotStar # lit ''prod'' @ DotPlus # cyr cy_anal @ [DotStar],
      DotStar # cyr cy_anal @ DotStar # cyr cy_prod @ [DotStar],
      DotStar # cyr cy_produkt @ [DotStar]]"

definition rx_web_analyst :: "item list list" where
  "rx_web_analyst =
     [DotStar # cyr cy_veb @ [DotStar],
      DotStar # lit ''web'' @ DotPlus # cyr cy_anal @ [DotStar],
      DotStar # cyr cy_anal @ DotStar # lit ''web'' @ [DotStar],
      WordB # lit ''web'' @ [WordB]]"

definition rx_data_engineer :: "item list list" where
  "rx_data_engineer =
     [DotStar # lit ''engin'' @ [DotStar],
      DotStar # cyr cy_inzhen @ [DotStar],
      WordB # lit ''de'' @ [WordB]]"

definition rx_data_scientist :: "item list list" where
  "rx_data_scientist =
     [DotStar # lit ''data'' @ DotPlus # lit ''scien'' @ [DotStar],
      DotStar # lit ''scien'' @ [DotStar],
      WordB # lit ''ds'' @ [WordB]]"

section \<open>\<open>categorize_vacancy\<close>\<close>

definition categorize_vacancy :: "ustr \<Rightarrow> ustr" where
  "categorize_vacancy vacancy_name =
     (if re_search rx_data_analyst vacancy_name then asc ''Data Analyst''
      else if re_search rx_bi_analyst vacancy_name then asc ''BI Analyst''
      else if re_search rx_product_analyst vacancy_name then asc ''Product Analyst''
      else if re_search rx_web_analyst vacancy_name then asc ''Web Analyst''
      else if re_search rx_data_engineer vacancy_name then asc ''Data Engineer''
      else if re_search rx_data_scientist vacancy_name then asc ''Data Scientist''
      else asc ''Other'')"

text \<open>\<open>search1\<close> is \<open>search_from\<close> for a single alternative.\<close>

fun search1 :: "item list \<Rightarrow> nat option \<Rightarrow> ustr \<Rightarrow> bool" where
  "search1 r prev [] = match_here r prev []"
| "search1 r prev (c # s) = (match_here r prev (c # s) \<or> search1 r (Some c) s)"

text \<open>
  The statements about \<open>categorize_vacancy\<close> speak of titles that contain a word, or a
  word followed by another one. \<open>ci_word w u\<close>: the text \<open>u\<close> is the literal \<open>w\<close> up to
  letter case. \<open>contains_ci w t\<close>: the title contains \<open>w\<close>. \<open>contains_ci_then w k v t\<close>:
  the title contains \<open>w\<close>, then at least \<open>k\<close> characters without a newline, then \<open>v\<close>.
\<close>

definition ci_word :: "ustr \<Rightarrow> ustr \<Rightarrow> bool" where
  "ci_word w u = list_all2 ci_match w u"

definition contains_ci :: "ustr \<Rightarrow> ustr \<Rightarrow> bool" where
  "contains_ci w t = (\<exists>pre u post. t = pre @ u @ post \<and> ci_word w u)"

definition contains_ci_then :: "ustr \<Rightarrow> nat \<Rightarrow> ustr \<Rightarrow> ustr \<Rightarrow> bool" where
  "contains_ci_then w k v t =
     (\<exists>pre u gap u' post. t = pre @ u @ gap @ u' @ post \<and> ci_word w u \<and> ci_word v u'
        \<and> k \<le> length gap \<and> 10 \<notin> set gap)"

section \<open>\<open>str_to_date\<close>\<close>

text \<open>
  \<^verbatim>\<open>
  pattern = re.compile(r"([<U+0430>-<U+044F>]+)")
  month = re.findall(pattern, str)
  date = re.sub(pattern, months["".join(month)], str)
  return datetime.strptime(date, "%d %m %Y").date()
  \<close>
  The dictionary \<open>months\<close> maps the twelve genitive month names of Russian to the decimal
  numbers 1 to 12; it is kept as an association list in source order.
\<close>

definition months :: "(ustr \<times> ustr) list" where
  "months =
     [([1103, 1085, 1074, 1072, 1088, 1103], asc ''1''),
      ([1092, 1077, 1074, 1088, 1072, 1083, 1103], asc ''2''),
      ([1084, 1072, 1088, 1090, 1072], asc ''3''),
      ([1072, 1087, 1088, 1077, 1083, 1103], asc ''4''),
      ([1084, 1072, 1103], asc ''5''),
      ([1080, 1102, 1085, 1103], asc ''6''),
      ([1080, 1102, 1083, 1103], asc ''7''),
      ([1072, 1074, 1075, 1091, 1089, 1090, 1072], asc ''8''),
      ([1089, 1077, 1085, 1090, 1103, 1073, 1088, 1103], asc ''9''),
      ([1086, 1082, 1090, 1103, 1073, 1088, 1103], asc ''10''),
      ([1085, 1086, 1103, 1073, 1088, 1103], asc ''11''),
      ([1076, 1077, 1082, 1072, 1073, 1088, 1103], asc ''12'')]"

text \<open>The class \<open>[\<close>U+0430\<open>-\<close>U+044F\<open>]\<close>, without case folding.\<close>

definition is_cyr_lower :: "nat \<Rightarrow> bool" where
  "is_cyr_lower c = (1072 \<le> c \<and> c \<le> 1103)"

text \<open>
  \<open>re.findall\<close> for a pattern \<open>([class]+)\<close>: the maximal runs of class characters, from
  left to right. \<open>re.sub\<close> for the same pattern: every run is replaced.
\<close>

function findall_runs :: "(nat \<Rightarrow> bool) \<Rightarrow> ustr \<Rightarrow> ustr list" where
  "findall_runs P [] = []"
| "findall_runs P (c # s) =
     (if P c then (c # takeWhile P s) # findall_runs P (dropWhile P s)
      else findall_runs P s)"
  by pat_completeness auto
termination
  by (relation "measure (\<lambda>(P, s). length s)")
     (auto simp: length_dropWhile_le less_Suc_eq_le)

function sub_runs :: "(nat \<Rightarrow> bool) \<Rightarrow> ustr \<Rightarrow> ustr \<Rightarrow> ustr" where
  "sub_runs P repl [] = []"
| "sub_runs P repl (c # s) =
     (if P c then repl @ sub_runs P repl (dropWhile P s)
      else c # sub_runs P repl s)"
  by pat_completeness auto
termination
  by (relation "measure (\<lambda>(P, repl, s). length s)")
     (auto simp: length_dropWhile_le less_Suc_eq_le)

subsection \<open>\<open>datetime.strptime(date, "%d %m %Y")\<close>\<close>

text \<open>
  The library turns the format into the regular expression
  \<^verbatim>\<open>(?P<d>3[0-1]|[1-2]\d|0[1-9]|[1-9]| [1-9])\s+(?P<m>1[0-2]|0[1-9]|[1-9])\s+(?P<Y>\d\d\d\d)\<close>,
  matches it at the start of the string, rejects a match that does not end at the end of
  the string, converts the three groups with \<open>int\<close> and builds the date, which rejects a
  year outside 1 to 9999 and a day that the month does not have. The matcher below lists
  the ways a piece of the expression matches, in the order in which a backtracking
  engine tries them; the first complete match is the one that \<open>re.match\<close> returns.
  White space is the set of \<open>str.isspace\<close>; digits are the ASCII digits (the library
  also takes the other decimal digits of Unicode, which the site's dates do not use).
\<close>

type_synonym 'a parser = "ustr \<Rightarrow> ('a \<times> ustr) list"

definition is_digit :: "nat \<Rightarrow> bool" where
  "is_digit c = (48 \<le> c \<and> c \<le> 57)"

definition is_digit19 :: "nat \<Rightarrow> bool" where
  "is_digit19 c = (49 \<le> c \<and> c \<le> 57)"

definition is_space :: "nat \<Rightarrow> bool" where
  "is_space c =
     ((9 \<le> c \<and> c \<le> 13) \<or> (28 \<le> c \<and> c \<le> 32) \<or> c = 133 \<or> c = 160 \<or> c = 5760
      \<or> (8192 \<le> c \<and> c \<le> 8202) \<or> c = 8232 \<or> c = 8233 \<or> c = 8239 \<or> c = 8287
      \<or> c = 12288)"

fun one :: "(nat \<Rightarrow> bool) \<Rightarrow> ustr parser" where
  "one P [] = []"
| "one P (c # s) = (if P c then [([c], s)] else [])"

definition then_p :: "ustr parser \<Rightarrow> ustr parser \<Rightarrow> ustr parser" where
  "then_p p q s = concat (map (\<lambda>(a, r). map (\<lambda>(b, r'). (a @ b, r')) (q r)) (p s))"

definition or_p :: "ustr parser \<Rightarrow> ustr parser \<Rightarrow> ustr parser" where
  "or_p p q s = p s @ q s"

text \<open>\<open>\s*\<close> and \<open>\s+\<close>, greedy: the longest run first, then the shorter ones.\<close>

fun spaces_star :: "ustr \<Rightarrow> ustr list" where
  "spaces_star [] = [[]]"
| "spaces_star (c # s) = (if is_space c then spaces_star s else []) @ [c # s]"

fun spaces_plus :: "ustr \<Rightarrow> ustr list" where
  "spaces_plus [] = []"
| "spaces_plus (c # s) = (if is_space c then spaces_star s else [])"

definition rx_d :: "ustr parser" where
  "rx_d =
     or_p (then_p (one (\<lambda>c. c = 51)) (one (\<lambda>c. c = 48 \<or> c = 49)))
    (or_p (then_p (one (\<lambda>c. c = 49 \<or> c = 50)) (one is_digit))
    (or_p (then_p (one (\<lambda>c. c = 48)) (one is_digit19))
    (or_p (one is_digit19)
          (then_p (one (\<lambda>c. c = 32)) (one is_digit19)))))"

definition rx_m :: "ustr parser" where
  "rx_m =
     or_p (then_p (one (\<lambda>c. c = 49)) (one (\<lambda>c. 48 \<le> c \<and> c \<le> 50)))
    (or_p (then_p (one (\<lambda>c. c = 48)) (one is_digit19))
          (one is_digit19))"

definition rx_Y :: "ustr parser" where
  "rx_Y = then_p (one is_digit) (then_p (one is_digit) (then_p (one is_digit) (one is_digit)))"

definition format_matches :: "ustr \<Rightarrow> ((ustr \<times> ustr \<times> ustr) \<times> ustr) list" where
  "format_matches s =
     concat (map (\<lambda>(d, r1).
       concat (map (\<lambda>r2.
         concat (map (\<lambda>(m, r3).
           concat (map (\<lambda>r4.
             map (\<lambda>(y, r5). ((d, m, y), r5)) (rx_Y r4))
           (spaces_plus r3)))
         (rx_m r2)))
       (spaces_plus r1)))
     (rx_d s))"

text \<open>\<open>int\<close> of a matched group: decimal digits, after white space is stripped.\<close>

definition py_int :: "ustr \<Rightarrow> nat" where
  "py_int s = foldl (\<lambda>n c. 10 * n + (c - 48)) 0 (filter is_digit s)"

record date =
  year :: nat
  month :: nat
  day :: nat

definition is_leap :: "nat \<Rightarrow> bool" where
  "is_leap y = (y mod 4 = 0 \<and> (y mod 100 \<noteq> 0 \<or> y mod 400 = 0))"

definition days_in_month :: "nat \<Rightarrow> nat \<Rightarrow> nat" where
  "days_in_month y m =
     (if m = 2 then (if is_leap y then 29 else 28)
      else if m = 4 \<or> m = 6 \<or> m = 9 \<or> m = 11 then 30
      else 31)"

definition make_date :: "nat \<Rightarrow> nat \<Rightarrow> nat \<Rightarrow> py_error + date" where
  "make_date y m d =
     (if 1 \<le> y \<and> y \<le> 9999 \<and> 1 \<le> m \<and> m \<le> 12 \<and> 1 \<le> d \<and> d \<le> days_in_month y m
      then Inr \<lparr>year = y, month = m, day = d\<rparr>
      else Inl ValueError)"

definition strptime_dmY :: "ustr \<Rightarrow> py_error + date" where
  "strptime_dmY s =
     (case format_matches s of
        [] \<Rightarrow> Inl ValueError
      | ((d, m, y), rest) # others \<Rightarrow>
          if rest \<noteq> [] then Inl ValueError
          else make_date (py_int y) (py_int m) (py_int d))"

definition str_to_date :: "ustr \<Rightarrow> py_error + date" where
  "str_to_date str =
     (let month = findall_runs is_cyr_lower str in
      case map_of months (concat month) of
        None \<Rightarrow> Inl KeyError
      | Some number \<Rightarrow> strptime_dmY (sub_runs is_cyr_lower number str))"

text \<open>
  The strings \<open><day> <month-name> <year>\<close> of a calendar date: the day in decimal, the
  month by its token, the year with four digits.
\<close>

definition show_day :: "nat \<Rightarrow> ustr" where
  "show_day d = (if d < 10 then [48 + d] else [48 + d div 10, 48 + d mod 10])"

definition show_year :: "nat \<Rightarrow> ustr" where
  "show_year y = [48 + y div 1000, 48 + y div 100 mod 10, 48 + y div 10 mod 10, 48 + y mod 10]"

definition month_token :: "nat \<Rightarrow> ustr" where
  "month_token m = fst (months ! (m - 1))"

definition month_number :: "nat \<Rightarrow> ustr" where
  "month_number m = snd (months ! (m - 1))"

definition date_string :: "nat \<Rightarrow> nat \<Rightarrow> nat \<Rightarrow> ustr" where
  "date_string d m y = show_day d @ [32] @ month_token m @ [32] @ show_year y"

text \<open>\<open>occurs w s\<close>: the string \<open>w\<close> is a substring of \<open>s\<close>.\<close>

fun occurs :: "ustr \<Rightarrow> ustr \<Rightarrow> bool" where
  "occurs w [] = (w = [])"
| "occurs w (c # s) = (take (length w) (c # s) = w \<or> occurs w s)"

section \<open>\<open>get_all_vacancies\<close>\<close>

text \<open>
  The transport and the HTML parser are outside the program. A response of the search
  endpoint is its status code together with the \<open>href\<close> values of the anchors that
  \<open>soup.find_all\<close> selects on the page, in document order; the transport is a function
  from the page number to the response that the request for that page receives.
\<close>

record search_response =
  status_code :: int
  page_links :: "ustr list"

text \<open>
  \<^verbatim>\<open>
  pattern = r"[a-zA-Z:\/.]*([0-9]*)\?"
  vacancies_id = [re.findall(pattern, link["href"]) for link in page_links]
  return list(chain(*vacancies_id))
  \<close>
  A match at a position reads the longest run of letters, colons, slashes and dots, then
  the longest run of digits, and needs a question mark (code point 63) next. The classes
  are disjoint and none holds the question mark, so giving back characters never helps:
  the match at a position is this one or none. \<open>re.findall\<close> returns the digit groups of
  the successive matches; after a match the scan goes on behind it, after a failure at
  the next position.
\<close>

definition is_url_char :: "nat \<Rightarrow> bool" where
  "is_url_char c = (c = 46 \<or> c = 47 \<or> c = 58 \<or> (65 \<le> c \<and> c \<le> 90) \<or> (97 \<le> c \<and> c \<le> 122))"

definition match_id :: "ustr \<Rightarrow> (ustr \<times> ustr) option" where
  "match_id s =
     (let r = dropWhile is_url_char s in
      case dropWhile is_digit r of
        [] \<Rightarrow> None
      | q # rest \<Rightarrow> if q = 63 then Some (takeWhile is_digit r, rest) else None)"

function findall_ids :: "ustr \<Rightarrow> ustr list" where
  "findall_ids [] = []"
| "findall_ids (c # s) =
     (case match_id (c # s) of
        Some (ds, rest) \<Rightarrow> ds # findall_ids rest
      | None \<Rightarrow> findall_ids s)"
  by pat_completeness auto
termination
proof (relation "measure length")
  fix c s x2 x y
  assume m: "match_id (c # s) = Some x2" and x2: "(x, y) = x2"
  let ?r = "dropWhile is_url_char (c # s)"
  from m x2 obtain q where q: "dropWhile is_digit ?r = q # y"
    by (auto simp: match_id_def Let_def split: list.splits if_splits)
  have "length (dropWhile is_digit ?r) \<le> length ?r"
    by (rule length_dropWhile_le)
  moreover have "length ?r \<le> length (c # s)"
    by (rule length_dropWhile_le)
  ultimately have "length y < length (c # s)"
    using q by simp
  then show "(y, c # s) \<in> measure length"
    by simp
qed simp_all

definition get_current_vacancies_id :: "ustr list \<Rightarrow> ustr list" where
  "get_current_vacancies_id links = concat (map findall_ids links)"

text \<open>
  \<open>save_data\<close> appends the collected ids to the empty frame with the columns \<open>id\<close> and
  \<open>vacancy_name\<close>: one row per id, the name missing.
\<close>

record id_row =
  row_id :: ustr
  row_vacancy_name :: "ustr option"

definition save_data :: "ustr list \<Rightarrow> id_row list" where
  "save_data all_vacancies_ids =
     map (\<lambda>i. \<lparr>row_id = i, row_vacancy_name = None\<rparr>) all_vacancies_ids"

text \<open>
  The \<open>while True\<close> loop: it only ends at a page with a status other than 200 or without
  ids, so the model is a partial function, and \<open>None\<close> stands for a run that never
  returns.
\<close>

partial_function (option) vacancies_loop ::
  "(int \<Rightarrow> search_response) \<Rightarrow> int \<Rightarrow> ustr list \<Rightarrow> id_row list option" where
  [code]: "vacancies_loop get page all_vacancies_ids =
     (if status_code (get page) \<noteq> 200 then Some (save_data all_vacancies_ids)
      else if get_current_vacancies_id (page_links (get page)) = []
           then Some (save_data all_vacancies_ids)
           else vacancies_loop get (page + 1)
                  (all_vacancies_ids @ get_current_vacancies_id (page_links (get page))))"

definition get_all_vacancies :: "(int \<Rightarrow> search_response) \<Rightarrow> int \<Rightarrow> id_row list option" where
  "get_all_vacancies get page = vacancies_loop get page []"

section \<open>\<open>get_vacancy_info\<close>\<close>

text \<open>
  A detail page is what the queries of the extraction find on it: the text of the element
  of each \<open>soup.find\<close>, or \<open>None\<close> where the element is missing. For the publication date
  the program takes the \<open>span\<close> child of a paragraph: the outer \<open>None\<close> is a missing
  paragraph, the inner one a missing child.
\<close>

record vacancy_soup =
  title_h1 :: "ustr option"
  company_span :: "ustr option"
  rating_div :: "ustr option"
  location_tag :: "ustr option"
  experience_span :: "ustr option"
  employment_p :: "ustr option"
  creation_p :: "ustr option option"
  skill_items :: "ustr list"

record vacancy_response =
  v_status_code :: int
  v_soup :: vacancy_soup

record vacancy_row =
  id' :: ustr
  vacancy_name :: "ustr option"
  experience :: "ustr option"
  work_type :: ustr
  busyness :: ustr
  city :: ustr
  company :: "ustr option"
  rating :: "ustr option"
  skills :: "ustr list"
  pub_date :: "ustr option"
  url :: ustr

definition vacancy_url :: "ustr \<Rightarrow> ustr" where
  "vacancy_url i = asc ''https://hh.ru/vacancy/'' @ i"

text \<open>
  The body of the \<open>try\<close> block. \<open>get_text\<close> turns a missing element into \<open>None\<close>; calling
  \<open>split\<close> on \<open>None\<close> and \<open>findChild\<close> on a missing paragraph raise \<open>AttributeError\<close>,
  unpacking a split that has not exactly two parts raises \<open>ValueError\<close>.
\<close>

definition extract_row :: "ustr \<Rightarrow> vacancy_soup \<Rightarrow> py_error + vacancy_row" where
  "extract_row i soup =
     (case location_tag soup of
        None \<Rightarrow> Inl AttributeError
      | Some location \<Rightarrow>
     (case split comma_space location of
        [] \<Rightarrow> Inl IndexError
      | c # parts \<Rightarrow>
     (case employment_p soup of
        None \<Rightarrow> Inl AttributeError
      | Some mode \<Rightarrow>
     (case split comma_space mode of
        [w, b] \<Rightarrow>
          (case creation_p soup of
             None \<Rightarrow> Inl AttributeError
           | Some p \<Rightarrow>
               Inr \<lparr>id' = i, vacancy_name = title_h1 soup, experience = experience_span soup,
                   work_type = w, busyness = b, city = c, company = company_span soup,
                   rating = rating_div soup, skills = skill_items soup, pub_date = p,
                   url = vacancy_url i\<rparr>)
      | other \<Rightarrow> Inl ValueError))))"

text \<open>
  The \<open>for\<close> loop with its three variables: \<open>counter\<close>, the frame \<open>df\<close> and the pending
  rows \<open>data\<close>. A status other than 200 returns \<open>df\<close> with the pending rows appended; a
  failed extraction goes on with the next id; a row extracted while \<open>counter\<close> is a multiple
  of ten appends the pending rows to \<open>df\<close>; the end of the list returns \<open>df\<close>.
\<close>

fun info_loop ::
  "(ustr \<Rightarrow> vacancy_response) \<Rightarrow> ustr list \<Rightarrow> nat \<Rightarrow> vacancy_row list \<Rightarrow> vacancy_row list
     \<Rightarrow> vacancy_row list" where
  "info_loop get [] counter df data = df"
| "info_loop get (i # vacancies_id) counter df data =
     (if v_status_code (get (vacancy_url i)) \<noteq> 200 then df @ data
      else case extract_row i (v_soup (get (vacancy_url i))) of
             Inl e \<Rightarrow> info_loop get vacancies_id counter df data
           | Inr row \<Rightarrow>
               if counter mod 10 = 0
               then info_loop get vacancies_id (counter + 1) (df @ data @ [row]) []
               else info_loop get vacancies_id (counter + 1) df (data @ [row]))"

definition get_vacancy_info :: "(ustr \<Rightarrow> vacancy_response) \<Rightarrow> ustr list \<Rightarrow> vacancy_row list" where
  "get_vacancy_info get vacancies_id = info_loop get vacancies_id 0 [] []"

text \<open>
  The record \<open>vacancy_row\<close> has the columns of the frame; the column \<open>id\<close> is the field
  \<open>id'\<close>.
\<close>

text \<open>
  The rows that the extraction yields for a list of ids, one per id that extracts, and
  the number of rows that have reached the frame after \<open>n\<close> extracted rows: the rows
  1, 11, 21, ... each take the pending rows with them.
\<close>

definition appended :: "nat \<Rightarrow> nat" where
  "appended n = (if n = 0 then 0 else 10 * ((n - 1) div 10) + 1)"

text \<open>
  The loop of \<open>get_vacancy_info\<close> seen from the extracted rows alone, for a run in which
  every page answers with status 200.
\<close>

fun flushed :: "nat \<Rightarrow> 'a list \<Rightarrow> 'a list \<Rightarrow> 'a list \<Rightarrow> 'a list" where
  "flushed c df data [] = df"
| "flushed c df data (r # rs) =
     (if c mod 10 = 0 then flushed (c + 1) (df @ data @ [r]) [] rs
      else flushed (c + 1) df (data @ [r]) rs)"

fun extracted :: "(ustr \<Rightarrow> vacancy_response) \<Rightarrow> ustr list \<Rightarrow> vacancy_row list" where
  "extracted get [] = []"
| "extracted get (i # vacancies_id) =
     (case extract_row i (v_soup (get (vacancy_url i))) of
        Inl e \<Rightarrow> extracted get vacancies_id
      | Inr row \<Rightarrow> row # extracted get vacancies_id)"

section \<open>\<open>skills_rating\<close>\<close>

text \<open>
  The frame that \<open>skills_rating\<close> reads has the columns \<open>category\<close> and \<open>skills\<close>; a cell of
  \<open>skills\<close> is a list of skill tags or \<open>None\<close> (the value that \<open>str_to_list\<close> and
  \<open>download_data\<close> give to a vacancy without skills).
\<close>

record rated_row =
  category :: ustr
  skills_cell :: "ustr list option"

text \<open>The loop over \<open>data["skills"]\<close>: a truthy cell is a non-empty list.\<close>

fun collect_skills :: "ustr list option list \<Rightarrow> ustr list \<Rightarrow> nat \<Rightarrow> ustr list \<times> nat" where
  "collect_skills [] all_skills total_vacancies = (all_skills, total_vacancies)"
| "collect_skills (skill # cells) all_skills total_vacancies =
     (case skill of
        None \<Rightarrow> collect_skills cells all_skills total_vacancies
      | Some l \<Rightarrow>
          if l \<noteq> [] then collect_skills cells (all_skills @ l) (total_vacancies + 1)
          else collect_skills cells all_skills total_vacancies)"

text \<open>
  \<open>Counter(all_skills).items()\<close>: the distinct elements in the order of their first
  occurrence, each with its number of occurrences.
\<close>

fun counter_add :: "'a \<Rightarrow> ('a \<times> nat) list \<Rightarrow> ('a \<times> nat) list" where
  "counter_add x [] = [(x, 1)]"
| "counter_add x ((y, n) # rest) =
     (if x = y then (y, n + 1) # rest else (y, n) # counter_add x rest)"

definition Counter :: "'a list \<Rightarrow> ('a \<times> nat) list" where
  "Counter xs = foldl (\<lambda>acc x. counter_add x acc) [] xs"

text \<open>
  \<open>sorted(..., key=lambda x: x[1], reverse=True)\<close>: descending by count and stable (with
  \<open>reverse=True\<close> equal keys keep their order), that is the stable ascending sort on the
  negated count.
\<close>

definition sorted_by_count :: "('a \<times> nat) list \<Rightarrow> ('a \<times> nat) list" where
  "sorted_by_count items = sort_key (\<lambda>x. - int (snd x)) items"

text \<open>
  \<open>round(number / total_vacancies, 3)\<close>. The quotient is kept as an exact rational and
  rounded to the nearest multiple of one thousandth, ties to the even one; the binary
  floating point of the interpreter is not modelled. A zero divisor raises.
\<close>

definition round_half_even :: "rat \<Rightarrow> int" where
  "round_half_even x =
     (let f = \<lfloor>x\<rfloor>; d = x - of_int f in
      if d < 1 / 2 then f else if 1 / 2 < d then f + 1 else if even f then f else f + 1)"

definition round3 :: "rat \<Rightarrow> rat" where
  "round3 x = of_int (round_half_even (x * 1000)) / 1000"

fun fractions :: "(ustr \<times> nat) list \<Rightarrow> nat \<Rightarrow> py_error + (ustr \<times> rat) list" where
  "fractions [] total_vacancies = Inr []"
| "fractions ((skill, number) # rest) total_vacancies =
     (if total_vacancies = 0 then Inl ZeroDivisionError
      else case fractions rest total_vacancies of
             Inl e \<Rightarrow> Inl e
           | Inr tl_pairs \<Rightarrow>
               Inr ((skill, round3 (of_nat number / of_nat total_vacancies)) # tl_pairs))"

definition skills_rating :: "rated_row list \<Rightarrow> ustr \<Rightarrow> py_error + (ustr \<times> rat) list" where
  "skills_rating df specialization =
     (let data = filter (\<lambda>r. category r = specialization) df;
          (all_skills, total_vacancies) = collect_skills (map skills_cell data) [] 0;
          result = sorted_by_count (Counter all_skills)
      in fractions result total_vacancies)"

text \<open>
  The skill lists that count: the non-empty ones among the cells, and those of the
  vacancies of a category.
\<close>

definition nonempty_cells :: "ustr list option list \<Rightarrow> ustr list list" where
  "nonempty_cells cells =
     concat (map (\<lambda>c. case c of None \<Rightarrow> [] | Some l \<Rightarrow> if l \<noteq> [] then [l] else []) cells)"

definition skill_bearing :: "rated_row list \<Rightarrow> ustr \<Rightarrow> ustr list list" where
  "skill_bearing df specialization =
     nonempty_cells (map skills_cell (filter (\<lambda>r. category r = specialization) df))"

section \<open>Abbreviations of the statements and concrete inputs\<close>

text \<open>
  The ids that a result page yields, and the test that ends the discovery loop at a page.
\<close>

definition page_ids :: "(int \<Rightarrow> search_response) \<Rightarrow> int \<Rightarrow> ustr list" where
  "page_ids get p = get_current_vacancies_id (page_links (get p))"

definition stops :: "(int \<Rightarrow> search_response) \<Rightarrow> int \<Rightarrow> bool" where
  "stops get p = (status_code (get p) \<noteq> 200 \<or> page_ids get p = [])"

text \<open>
  A listing link, a transport with two result pages of fifteen links followed by empty
  pages, and a transport whose second page answers with status 503.
\<close>

definition listing_href :: ustr where
  "listing_href = asc ''https://perm.hh.ru/vacancy/12345?query=analyst''"

definition two_full_pages :: "int \<Rightarrow> search_response" where
  "two_full_pages p =
     (if p = 0 \<or> p = 1 then \<lparr>status_code = 200, page_links = replicate 15 listing_href\<rparr>
      else \<lparr>status_code = 200, page_links = []\<rparr>)"

definition second_page_fails :: "int \<Rightarrow> search_response" where
  "second_page_fails p =
     (if p = 0 then \<lparr>status_code = 200, page_links = [listing_href, listing_href]\<rparr>
      else \<lparr>status_code = 503, page_links = [listing_href]\<rparr>)"

text \<open>A detail page on which every query finds its element, served for every id.\<close>

definition complete_soup :: vacancy_soup where
  "complete_soup =
     \<lparr>title_h1 = Some (asc ''Data Analyst''), company_span = Some (asc ''Acme''),
      rating_div = None, location_tag = Some (asc ''Perm, Lenina 1''),
      experience_span = Some (asc ''1-3''), employment_p = Some (asc ''Full, Office''),
      creation_p = Some (Some (asc ''15 May 2024'')), skill_items = [asc ''SQL'']\<rparr>"

definition every_page_complete :: "ustr \<Rightarrow> vacancy_response" where
  "every_page_complete u = \<lparr>v_status_code = 200, v_soup = complete_soup\<rparr>"

text \<open>Frames for \<open>skills_rating\<close>.\<close>

definition data_analyst :: ustr where
  "data_analyst = asc ''Data Analyst''"

definition sql :: ustr where
  "sql = asc ''SQL''"

definition python :: ustr where
  "python = asc ''Python''"

definition frame_without_skills :: "rated_row list" where
  "frame_without_skills =
     [\<lparr>category = data_analyst, skills_cell = None\<rparr>,
      \<lparr>category = data_analyst, skills_cell = Some []\<rparr>]"

definition frame_other_category :: "rated_row list" where
  "frame_other_category = [\<lparr>category = asc ''Other'', skills_cell = Some [sql]\<rparr>]"

definition frame_repeated_skill :: "rated_row list" where
  "frame_repeated_skill = [\<lparr>category = data_analyst, skills_cell = Some [sql, sql]\<rparr>]"

definition frame_three :: "rated_row list" where
  "frame_three =
     [\<lparr>category = data_analyst, skills_cell = Some [sql, python]\<rparr>,
      \<lparr>category = data_analyst, skills_cell = None\<rparr>,
      \<lparr>category = data_analyst, skills_cell = Some [python]\<rparr>,
      \<lparr>category = asc ''Other'', skills_cell = Some [sql]\<rparr>]"

section \<open>\<open>get_and_save_data\<close> and \<open>download_data\<close>\<close>
















section \<open>Properties of \<open>str_to_list\<close>\<close>

lemma split_from_nonempty: "split_from sep cur s \<noteq> []"
  by (induction sep cur s rule: split_from.induct) auto

lemma split_nonempty: "split sep s \<noteq> []"
  by (simp add: split_def split_from_nonempty)

text \<open>
  Claim C10. \<open>str_to_list\<close> never returns an empty list: the empty string (the only falsy
  string) gives \<open>None\<close>, and the encoding \<open>"[]"\<close> of the empty list gives the one-element
  list holding the empty string.
\<close>

theorem str_to_list_never_empty:
  "str_to_list s \<noteq> Some []
   \<and> str_to_list [] = None
   \<and> str_to_list (asc ''[]'') = Some [[]]"
proof -
  have a: "str_to_list s \<noteq> Some []"
    by (simp add: str_to_list_def split_nonempty)
  have b: "str_to_list [] = None"
    by (simp add: str_to_list_def)
  have c: "str_to_list (asc ''[]'') = Some [[]]"
    by (simp add: str_to_list_def asc_def strip_def split_def comma_space_def)
  from a b c show ?thesis by simp
qed

section \<open>Properties of \<open>skills_rating\<close>\<close>

lemma collect_skills_eq:
  "collect_skills cells acc n = (acc @ concat (nonempty_cells cells), n + length (nonempty_cells cells))"
  by (induction cells arbitrary: acc n) (auto simp: nonempty_cells_def split: option.splits)

lemma counter_add_fst:
  "map fst (counter_add x acc) = (if x \<in> fst ` set acc then map fst acc else map fst acc @ [x])"
  by (induction x acc rule: counter_add.induct) (auto simp: image_iff)

lemma counter_add_distinct: "distinct (map fst acc) \<Longrightarrow> distinct (map fst (counter_add x acc))"
  by (simp add: counter_add_fst)


lemma foldl_counter_distinct:
  "distinct (map fst acc) \<Longrightarrow> distinct (map fst (foldl (\<lambda>a x. counter_add x a) acc xs))"
  by (induction xs arbitrary: acc) (simp_all add: counter_add_distinct)



lemma Counter_distinct: "distinct (map fst (Counter xs))"
  unfolding Counter_def by (rule foldl_counter_distinct) simp










lemma skills_rating_eq:
  "skills_rating df spec =
     fractions (sorted_by_count (Counter (concat (skill_bearing df spec))))
       (length (skill_bearing df spec))"
  by (simp add: skills_rating_def collect_skills_eq skill_bearing_def Let_def)

text \<open>
  Claim C4, as the code has it. Where no vacancy of the category lists a skill, the
  counter is empty, the comprehension that divides runs over no element, and
  \<open>skills_rating\<close> returns the empty list: no division by zero is ever evaluated.
\<close>

theorem skills_rating_without_skills:
  "skill_bearing df spec = [] \<Longrightarrow> skills_rating df spec = Inr []"
  by (simp add: skills_rating_eq Counter_def sorted_by_count_def)


lemmas frame_defs = frame_without_skills_def frame_other_category_def frame_repeated_skill_def
  frame_three_def data_analyst_def sql_def python_def asc_def

text \<open>
  Two vacancies of the category, none with a skill: the claimed error does not occur.
\<close>

theorem skills_rating_error_counterexample:
  "skill_bearing frame_without_skills data_analyst = []
   \<and> skills_rating frame_without_skills data_analyst = Inr []"
  by (simp add: skills_rating_eq skill_bearing_def nonempty_cells_def frame_defs
        Counter_def sorted_by_count_def)

text \<open>The theorem of C4 at a frame without a vacancy of the category.\<close>

theorem skills_rating_without_skills_witness:
  "skill_bearing frame_other_category data_analyst = []
   \<and> skills_rating frame_other_category data_analyst = Inr []"
proof -
  have h: "skill_bearing frame_other_category data_analyst = []"
    by (simp add: skill_bearing_def nonempty_cells_def frame_defs)
  from h skills_rating_without_skills[OF h] show ?thesis by simp
qed



section \<open>Properties of \<open>get_all_vacancies\<close>\<close>

lemma vacancies_loop_run:
  "(\<And>i. i < k \<Longrightarrow> \<not> stops get (page + int i)) \<Longrightarrow> stops get (page + int k) \<Longrightarrow>
   vacancies_loop get page acc =
     Some (save_data (acc @ concat (map (\<lambda>i. page_ids get (page + int i)) [0..<k])))"
proof (induction k arbitrary: page acc)
  case 0
  then show ?case
    by (subst vacancies_loop.simps) (auto simp: stops_def page_ids_def)
next
  case (Suc k)
  have here: "\<not> stops get page" using Suc.prems(1)[of 0] by simp
  have shift: "\<And>i. page + 1 + int i = page + int (Suc i)" by simp
  have later: "\<not> stops get (page + 1 + int i)" if "i < k" for i
  proof -
    from that have "Suc i < Suc k" by simp
    then have "\<not> stops get (page + int (Suc i))" by (rule Suc.prems(1))
    then show ?thesis unfolding shift .
  qed
  have last: "stops get (page + 1 + int k)"
    using Suc.prems(2) unfolding shift .
  have step: "vacancies_loop get page acc = vacancies_loop get (page + 1) (acc @ page_ids get page)"
    using here by (subst vacancies_loop.simps) (simp add: stops_def page_ids_def)
  have idx: "map (\<lambda>i. page_ids get (page + int i)) [0..<Suc k] =
             page_ids get page # map (\<lambda>i. page_ids get (page + 1 + int i)) [0..<k]"
  proof -
    have "[0..<Suc k] = 0 # map Suc [0..<k]"
      by (simp add: upt_conv_Cons map_Suc_upt del: upt_Suc)
    then show ?thesis by (simp only: shift list.map map_map comp_def) simp
  qed
  have rest: "vacancies_loop get (page + 1) (acc @ page_ids get page) =
      Some (save_data ((acc @ page_ids get page) @
        concat (map (\<lambda>i. page_ids get (page + 1 + int i)) [0..<k])))"
    using later last by (rule Suc.IH)
  show ?case
    unfolding step rest idx by simp
qed

lemma map_row_id_save_data: "map row_id (save_data ids) = ids"
  by (simp add: save_data_def comp_def)

text \<open>
  Claim C3. When the pages before page \<open>page + k\<close> all answer with status 200 and yield
  ids, and page \<open>page + k\<close> answers with another status or yields no id, then
  \<open>get_all_vacancies\<close> returns, and its table holds exactly the ids of the \<open>k\<close> pages
  before, in order; a failing transport gives this partial result, not an error. Two
  pages of fifteen ids followed by an empty page give thirty rows; a failing second page
  gives the ids of the first page.
\<close>

theorem get_all_vacancies_result:
  "(\<forall>k. (\<forall>i<k. \<not> stops get (page + int i)) \<and> stops get (page + int k) \<longrightarrow>
      (\<exists>tbl. get_all_vacancies get page = Some tbl
         \<and> map row_id tbl = concat (map (\<lambda>i. page_ids get (page + int i)) [0..<k])))
   \<and> (status_code (get page) = 200 \<and> length (page_ids get page) = 15
      \<and> status_code (get (page + 1)) = 200 \<and> length (page_ids get (page + 1)) = 15
      \<and> status_code (get (page + 2)) = 200 \<and> page_ids get (page + 2) = [] \<longrightarrow>
      (\<exists>tbl. get_all_vacancies get page = Some tbl \<and> length tbl = 30))
   \<and> (status_code (get page) = 200 \<and> page_ids get page \<noteq> []
      \<and> status_code (get (page + 1)) \<noteq> 200 \<longrightarrow>
      (\<exists>tbl. get_all_vacancies get page = Some tbl \<and> map row_id tbl = page_ids get page))"
proof (intro conjI allI impI)
  fix k
  assume a: "(\<forall>i<k. \<not> stops get (page + int i)) \<and> stops get (page + int k)"
  then have "get_all_vacancies get page =
      Some (save_data ([] @ concat (map (\<lambda>i. page_ids get (page + int i)) [0..<k])))"
    unfolding get_all_vacancies_def by (intro vacancies_loop_run) auto
  then show "\<exists>tbl. get_all_vacancies get page = Some tbl
      \<and> map row_id tbl = concat (map (\<lambda>i. page_ids get (page + int i)) [0..<k])"
    by (simp add: map_row_id_save_data)
next
  assume a: "status_code (get page) = 200 \<and> length (page_ids get page) = 15
      \<and> status_code (get (page + 1)) = 200 \<and> length (page_ids get (page + 1)) = 15
      \<and> status_code (get (page + 2)) = 200 \<and> page_ids get (page + 2) = []"
  have ok: "\<And>i. i < 2 \<Longrightarrow> \<not> stops get (page + int i)"
  proof -
    fix i :: nat assume "i < 2"
    then have "i = 0 \<or> i = 1" by auto
    then show "\<not> stops get (page + int i)" using a by (auto simp: stops_def)
  qed
  have st: "stops get (page + int 2)" using a by (simp add: stops_def)
  have "get_all_vacancies get page =
      Some (save_data ([] @ concat (map (\<lambda>i. page_ids get (page + int i)) [0..<2])))"
    unfolding get_all_vacancies_def using ok st by (rule vacancies_loop_run)
  moreover have "[0..<2] = [0, 1]" by (simp add: upt_conv_Cons)
  ultimately show "\<exists>tbl. get_all_vacancies get page = Some tbl \<and> length tbl = 30"
    using a by (simp add: save_data_def)
next
  assume a: "status_code (get page) = 200 \<and> page_ids get page \<noteq> []
      \<and> status_code (get (page + 1)) \<noteq> 200"
  have ok: "\<And>i. i < 1 \<Longrightarrow> \<not> stops get (page + int i)" using a by (simp add: stops_def)
  have st: "stops get (page + int 1)" using a by (simp add: stops_def)
  have "get_all_vacancies get page =
      Some (save_data ([] @ concat (map (\<lambda>i. page_ids get (page + int i)) [0..<1])))"
    unfolding get_all_vacancies_def using ok st by (rule vacancies_loop_run)
  then show "\<exists>tbl. get_all_vacancies get page = Some tbl \<and> map row_id tbl = page_ids get page"
    by (simp add: map_row_id_save_data)
qed


lemma listing_href_ids: "findall_ids listing_href = [asc ''12345'']"
  by (simp add: listing_href_def asc_def match_id_def is_url_char_def is_digit_def)

lemma two_full_pages_ids:
  "page_ids two_full_pages 0 = replicate 15 (asc ''12345'')"
  "page_ids two_full_pages 1 = replicate 15 (asc ''12345'')"
  "page_ids two_full_pages 2 = []"
  by (simp_all add: page_ids_def two_full_pages_def get_current_vacancies_id_def
        listing_href_ids map_replicate_const)

lemma second_page_fails_ids:
  "page_ids second_page_fails 0 = [asc ''12345'', asc ''12345'']"
  by (simp add: page_ids_def second_page_fails_def get_current_vacancies_id_def listing_href_ids)

text \<open>The theorem at the two transports: thirty ids, and the ids of the first page.\<close>

theorem get_all_vacancies_result_witness:
  "(\<exists>tbl. get_all_vacancies two_full_pages 0 = Some tbl
       \<and> map row_id tbl = replicate 30 (asc ''12345'') \<and> length tbl = 30)
   \<and> (\<exists>tbl. get_all_vacancies second_page_fails 0 = Some tbl
       \<and> map row_id tbl = [asc ''12345'', asc ''12345''])"
proof -
  have s0: "\<not> stops two_full_pages 0" and s1: "\<not> stops two_full_pages 1"
    and s2: "stops two_full_pages 2"
    by (simp_all add: stops_def two_full_pages_ids) (simp_all add: two_full_pages_def)
  have pre: "(\<forall>i<2. \<not> stops two_full_pages (0 + int i)) \<and> stops two_full_pages (0 + int 2)"
    using s0 s1 s2 by (auto simp: less_2_cases_iff)
  have upt2: "[0..<2] = [0, 1]" by (simp add: upt_conv_Cons)
  have a: "\<exists>tbl. get_all_vacancies two_full_pages 0 = Some tbl
      \<and> map row_id tbl = replicate 30 (asc ''12345'')"
    using get_all_vacancies_result[of two_full_pages 0] pre
    by (auto simp: upt2 two_full_pages_ids replicate_add[symmetric] simp del: replicate_add)
  then have a': "\<exists>tbl. get_all_vacancies two_full_pages 0 = Some tbl
      \<and> map row_id tbl = replicate 30 (asc ''12345'') \<and> length tbl = 30"
    by (metis length_map length_replicate)
  have f0: "status_code (second_page_fails 0) = 200" "status_code (second_page_fails (0 + 1)) \<noteq> 200"
    by (simp_all add: second_page_fails_def)
  have b: "\<exists>tbl. get_all_vacancies second_page_fails 0 = Some tbl
      \<and> map row_id tbl = [asc ''12345'', asc ''12345'']"
    using get_all_vacancies_result[of second_page_fails 0] f0
    by (simp add: second_page_fails_ids)
  from a' b show ?thesis by simp
qed

section \<open>Properties of \<open>get_vacancy_info\<close>\<close>

lemma appended_le: "appended n \<le> n"
proof (cases "n = 0")
  case True
  then show ?thesis by (simp add: appended_def)
next
  case False
  have "10 * ((n - 1) div 10) \<le> n - 1" by (rule times_div_less_eq_dividend)
  then show ?thesis using False by (simp add: appended_def)
qed

lemma div_pred: "c mod 10 \<noteq> 0 \<Longrightarrow> (c - 1) div 10 = (c::nat) div 10"
proof -
  assume a: "c mod 10 \<noteq> 0"
  have c: "c = 10 * (c div 10) + c mod 10" by simp
  obtain m where m: "c mod 10 = Suc m" using a by (cases "c mod 10") auto
  have lt: "m < 10" using m mod_less_divisor[of 10 c] by simp
  have "c - 1 = 10 * (c div 10) + m" using c m by simp
  then have "(c - 1) div 10 = (10 * (c div 10) + m) div 10" by simp
  also have "\<dots> = c div 10" using lt by simp
  finally show ?thesis .
qed

lemma appended_step:
  "appended (Suc c) = (if c mod 10 = 0 then Suc c else appended c)"
proof (cases "c mod 10 = 0")
  case True
  then have "10 * (c div 10) = c" by (simp add: mod_0_imp_dvd)
  then show ?thesis using True by (simp add: appended_def)
next
  case False
  then have "c \<noteq> 0" by auto
  then show ?thesis using False div_pred[OF False] by (simp add: appended_def)
qed


lemma appended_mono: "appended c \<le> appended (c + k)"
proof (induction k)
  case 0
  show ?case by simp
next
  case (Suc k)
  have "appended c \<le> c + k" using appended_le[of c] by simp
  then show ?case using Suc by (simp add: appended_step)
qed

lemma flushed_take:
  "length data = c - appended c \<Longrightarrow>
   flushed c df data rs = df @ take (appended (c + length rs) - appended c) (data @ rs)"
proof (induction rs arbitrary: c df data)
  case Nil
  then show ?case by simp
next
  case (Cons r rs)
  show ?case
  proof (cases "c mod 10 = 0")
    case True
    have a1: "appended (Suc c) = Suc c" using True by (simp add: appended_step)
    have l: "length ([]::'a list) = Suc c - appended (Suc c)" using a1 by simp
    have ge: "Suc c \<le> appended (Suc c + length rs)"
      using appended_mono[of "Suc c" "length rs"] a1 by simp
    have d: "appended c + length data = c" using Cons.prems appended_le[of c] by simp
    have "flushed c df data (r # rs) = flushed (Suc c) (df @ data @ [r]) [] rs"
      using True by simp
    also have "\<dots> = (df @ data @ [r]) @ take (appended (Suc c + length rs) - appended (Suc c)) ([] @ rs)"
      by (rule Cons.IH[OF l])
    also have "\<dots> = df @ take (appended (c + length (r # rs)) - appended c) (data @ r # rs)"
    proof -
      let ?A = "appended (Suc c + length rs)"
      have e: "?A - appended c = length data + Suc (?A - Suc c)"
        using ge d by linarith
      have "take (?A - appended c) (data @ r # rs) = data @ r # take (?A - Suc c) rs"
        unfolding e by simp
      then show ?thesis using a1 by simp
    qed
    finally show ?thesis .
  next
    case False
    have a1: "appended (Suc c) = appended c" using False by (simp add: appended_step)
    have l: "length (data @ [r]) = Suc c - appended (Suc c)"
      using Cons.prems appended_le[of c] a1 by simp
    have "flushed c df data (r # rs) = flushed (Suc c) df (data @ [r]) rs"
      using False by simp
    also have "\<dots> = df @ take (appended (Suc c + length rs) - appended (Suc c)) ((data @ [r]) @ rs)"
      by (rule Cons.IH[OF l])
    finally show ?thesis using a1 by simp
  qed
qed

lemma info_loop_flushed:
  "(\<And>i. i \<in> set ids \<Longrightarrow> v_status_code (get (vacancy_url i)) = 200) \<Longrightarrow>
   info_loop get ids c df data = flushed c df data (extracted get ids)"
  by (induction ids arbitrary: c df data) (auto split: sum.splits)

text \<open>
  What the code returns when every page answers with status 200: the extracted rows up to
  the last one that was appended, that is row 1, 11, 21, ...; the rows after it stay in
  \<open>data\<close> and are not returned.
\<close>

lemma get_vacancy_info_rows:
  assumes "\<And>i. i \<in> set ids \<Longrightarrow> v_status_code (get (vacancy_url i)) = 200"
  shows "get_vacancy_info get ids =
           take (appended (length (extracted get ids))) (extracted get ids)"
proof -
  have "length ([]::vacancy_row list) = 0 - appended 0" by simp
  then have "flushed 0 [] [] (extracted get ids) =
      [] @ take (appended (0 + length (extracted get ids)) - appended 0) ([] @ extracted get ids)"
    by (rule flushed_take)
  then show ?thesis
    using info_loop_flushed[where ids = ids and get = get and c = 0 and df = "[]" and data = "[]"] assms
    by (simp add: get_vacancy_info_def appended_def)
qed

text \<open>
  Claim C1 at two ids whose pages both answer with status 200 and extract: the table has
  the row of the first id only. The second row is in \<open>data\<close> when the loop ends, and the
  final \<open>return df\<close> leaves it behind, unlike the return at a failing status, which appends
  \<open>data\<close> first.
\<close>

theorem get_vacancy_info_loses_pending_rows:
  "map id' (extracted every_page_complete [asc ''1'', asc ''2'']) = [asc ''1'', asc ''2'']
   \<and> map id' (get_vacancy_info every_page_complete [asc ''1'', asc ''2'']) = [asc ''1'']"
proof -
  have sp1: "split comma_space (asc ''Perm, Lenina 1'') = [asc ''Perm'', asc ''Lenina 1'']"
    by (simp add: split_def comma_space_def asc_def)
  have sp2: "split comma_space (asc ''Full, Office'') = [asc ''Full'', asc ''Office'']"
    by (simp add: split_def comma_space_def asc_def)
  have ex: "\<And>i. \<exists>row. extract_row i complete_soup = Inr row \<and> id' row = i"
    by (simp add: extract_row_def complete_soup_def sp1 sp2)
  then obtain r1 r2 where
    r1: "extract_row (asc ''1'') complete_soup = Inr r1" "id' r1 = asc ''1''" and
    r2: "extract_row (asc ''2'') complete_soup = Inr r2" "id' r2 = asc ''2''"
    by metis
  have e: "extracted every_page_complete [asc ''1'', asc ''2''] = [r1, r2]"
    by (simp add: every_page_complete_def r1 r2)
  have st: "\<And>i. i \<in> set [asc ''1'', asc ''2''] \<Longrightarrow>
      v_status_code (every_page_complete (vacancy_url i)) = 200"
    by (simp add: every_page_complete_def)
  have "get_vacancy_info every_page_complete [asc ''1'', asc ''2''] =
      take (appended (length (extracted every_page_complete [asc ''1'', asc ''2''])))
        (extracted every_page_complete [asc ''1'', asc ''2''])"
    using st by (rule get_vacancy_info_rows)
  then have g: "get_vacancy_info every_page_complete [asc ''1'', asc ''2''] = [r1]"
    unfolding e by (simp add: appended_def)
  show ?thesis unfolding e g by (simp add: r1 r2)
qed

section \<open>Properties of the pattern matcher\<close>

text \<open>
  A leading \<open>.*\<close> adds nothing to a search, and the alternatives without \<open>\b\<close> say
  that the title contains a word, or a word followed by another one.
\<close>

lemma search_from_alts: "search_from alts prev s = list_ex (\<lambda>r. search1 r prev s) alts"
  by (induction s arbitrary: prev) (auto simp: list_ex_iff)

lemma dotstar_imp_search1: "match_here (DotStar # r) prev s \<Longrightarrow> search1 r prev s"
  by (induction s arbitrary: prev) auto

lemma search1_dotstar: "search1 (DotStar # r) prev s = search1 r prev s"
  by (induction s arbitrary: prev) (auto dest: dotstar_imp_search1)

lemma match_here_prev_free:
  "WordB \<notin> set r \<Longrightarrow> match_here r p s = match_here r q s"
  by (induction r p s arbitrary: q rule: match_here.induct) auto

lemma match_chrs:
  "WordB \<notin> set r \<Longrightarrow>
   match_here (map Chr w @ r) p s \<longleftrightarrow>
     (\<exists>u s'. s = u @ s' \<and> ci_word w u \<and> match_here r None s')"
proof (induction w arbitrary: p s)
  case Nil
  then show ?case using match_here_prev_free[of r p s None] by (simp add: ci_word_def)
next
  case (Cons a w)
  show ?case
  proof (cases s)
    case Nil
    then show ?thesis by (simp add: ci_word_def)
  next
    case (Cons c s1)
    have "match_here (map Chr (a # w) @ r) p s \<longleftrightarrow>
          ci_match a c \<and> (\<exists>u s'. s1 = u @ s' \<and> ci_word w u \<and> match_here r None s')"
      using Cons.IH[OF Cons.prems] Cons by simp
    also have "\<dots> \<longleftrightarrow> (\<exists>u s'. s = u @ s' \<and> ci_word (a # w) u \<and> match_here r None s')"
      unfolding Cons ci_word_def
      by (auto simp: list_all2_Cons1 Cons_eq_append_conv) 
    finally show ?thesis .
  qed
qed


lemma match_dotstar:
  "WordB \<notin> set r \<Longrightarrow>
   match_here (DotStar # r) p s \<longleftrightarrow>
     (\<exists>g s'. s = g @ s' \<and> 10 \<notin> set g \<and> match_here r None s')"
proof (induction s arbitrary: p)
  case Nil
  then show ?case using match_here_prev_free[of r p "[]" None] by simp
next
  case (Cons c s)
  have here: "match_here r p (c # s) = match_here r None (c # s)"
    using Cons.prems by (rule match_here_prev_free)
  let ?R = "\<exists>g s'. c # s = g @ s' \<and> 10 \<notin> set g \<and> match_here r None s'"
  have "match_here (DotStar # r) p (c # s) \<longleftrightarrow>
        (c \<noteq> 10 \<and> (\<exists>g s'. s = g @ s' \<and> 10 \<notin> set g \<and> match_here r None s'))
        \<or> match_here r None (c # s)"
    by (simp add: here Cons.IH[OF Cons.prems])
  also have "\<dots> \<longleftrightarrow> ?R"
  proof
    assume "(c \<noteq> 10 \<and> (\<exists>g s'. s = g @ s' \<and> 10 \<notin> set g \<and> match_here r None s'))
        \<or> match_here r None (c # s)"
    then show ?R
    proof
      assume "c \<noteq> 10 \<and> (\<exists>g s'. s = g @ s' \<and> 10 \<notin> set g \<and> match_here r None s')"
      then obtain g s' where "c \<noteq> 10" "s = g @ s'" "10 \<notin> set g" "match_here r None s'"
        by blast
      then have "c # s = (c # g) @ s' \<and> 10 \<notin> set (c # g) \<and> match_here r None s'"
        by simp
      then show ?R by blast
    next
      assume "match_here r None (c # s)"
      then have "c # s = [] @ (c # s) \<and> 10 \<notin> set ([]::nat list) \<and> match_here r None (c # s)"
        by simp
      then show ?R by blast
    qed
  next
    assume ?R
    then obtain g s' where g: "c # s = g @ s'" "10 \<notin> set g" "match_here r None s'"
      by blast
    show "(c \<noteq> 10 \<and> (\<exists>g s'. s = g @ s' \<and> 10 \<notin> set g \<and> match_here r None s'))
        \<or> match_here r None (c # s)"
    proof (cases g)
      case Nil
      then show ?thesis using g by simp
    next
      case (Cons x g')
      then have "c \<noteq> 10" "s = g' @ s'" "10 \<notin> set g'" using g by auto
      then show ?thesis using g(3) by blast
    qed
  qed
  finally show ?case .
qed

lemma match_dotplus:
  assumes r: "WordB \<notin> set r"
  shows "match_here (DotPlus # r) p s \<longleftrightarrow>
     (\<exists>g s'. s = g @ s' \<and> g \<noteq> [] \<and> 10 \<notin> set g \<and> match_here r None s')"
proof (cases s)
  case Nil
  then show ?thesis by simp
next
  case (Cons c s1)
  let ?R = "\<exists>g s'. c # s1 = g @ s' \<and> g \<noteq> [] \<and> 10 \<notin> set g \<and> match_here r None s'"
  have "match_here (DotPlus # r) p (c # s1) \<longleftrightarrow>
        c \<noteq> 10 \<and> (\<exists>g s'. s1 = g @ s' \<and> 10 \<notin> set g \<and> match_here r None s')"
    by (simp add: match_dotstar[OF r])
  also have "\<dots> \<longleftrightarrow> ?R"
  proof
    assume "c \<noteq> 10 \<and> (\<exists>g s'. s1 = g @ s' \<and> 10 \<notin> set g \<and> match_here r None s')"
    then obtain g s' where "c \<noteq> 10" "s1 = g @ s'" "10 \<notin> set g" "match_here r None s'"
      by blast
    then have "c # s1 = (c # g) @ s' \<and> c # g \<noteq> [] \<and> 10 \<notin> set (c # g) \<and> match_here r None s'"
      by simp
    then show ?R by blast
  next
    assume ?R
    then obtain g s' where g: "c # s1 = g @ s'" "g \<noteq> []" "10 \<notin> set g" "match_here r None s'"
      by blast
    then obtain g' where "g = c # g'" by (cases g) auto
    then have "c \<noteq> 10" "s1 = g' @ s'" "10 \<notin> set g'" using g by auto
    then show "c \<noteq> 10 \<and> (\<exists>g s'. s1 = g @ s' \<and> 10 \<notin> set g \<and> match_here r None s')"
      using g(4) by blast
  qed
  finally show ?thesis unfolding Cons .
qed

lemma search1_iff:
  "WordB \<notin> set r \<Longrightarrow>
   search1 r p s \<longleftrightarrow> (\<exists>pre s'. s = pre @ s' \<and> match_here r None s')"
proof (induction s arbitrary: p)
  case Nil
  then show ?case using match_here_prev_free[of r p "[]" None] by simp
next
  case (Cons c s)
  have here: "match_here r p (c # s) = match_here r None (c # s)"
    using Cons.prems by (rule match_here_prev_free)
  let ?R = "\<exists>pre s'. c # s = pre @ s' \<and> match_here r None s'"
  have "search1 r p (c # s) \<longleftrightarrow>
        match_here r None (c # s) \<or> (\<exists>pre s'. s = pre @ s' \<and> match_here r None s')"
    by (simp add: here Cons.IH[OF Cons.prems])
  also have "\<dots> \<longleftrightarrow> ?R"
  proof
    assume "match_here r None (c # s) \<or> (\<exists>pre s'. s = pre @ s' \<and> match_here r None s')"
    then show ?R
    proof
      assume "match_here r None (c # s)"
      then have "c # s = [] @ (c # s) \<and> match_here r None (c # s)" by simp
      then show ?R by blast
    next
      assume "\<exists>pre s'. s = pre @ s' \<and> match_here r None s'"
      then obtain pre s' where "s = pre @ s'" "match_here r None s'" by blast
      then have "c # s = (c # pre) @ s' \<and> match_here r None s'" by simp
      then show ?R by blast
    qed
  next
    assume ?R
    then obtain pre s' where g: "c # s = pre @ s'" "match_here r None s'" by blast
    show "match_here r None (c # s) \<or> (\<exists>pre s'. s = pre @ s' \<and> match_here r None s')"
    proof (cases pre)
      case Nil
      then show ?thesis using g by simp
    next
      case (Cons x pre')
      then have "s = pre' @ s'" using g by simp
      then show ?thesis using g(2) by blast
    qed
  qed
  finally show ?case .
qed


lemma match_dotstar_end: "match_here [DotStar] prev s"
  by (induction s arbitrary: prev) auto

lemma no_wordb_chrs: "WordB \<notin> set (map Chr w @ r) \<longleftrightarrow> WordB \<notin> set r"
  by auto

lemma search_word:
  "search1 (map Chr w @ [DotStar]) p t \<longleftrightarrow> contains_ci w t"
proof -
  have nb: "WordB \<notin> set (map Chr w @ [DotStar])" "WordB \<notin> set [DotStar]" by auto
  have "search1 (map Chr w @ [DotStar]) p t \<longleftrightarrow>
        (\<exists>pre s'. t = pre @ s' \<and> (\<exists>u post. s' = u @ post \<and> ci_word w u))"
    by (simp add: search1_iff[OF nb(1)] match_chrs[OF nb(2)] match_dotstar_end)
  also have "\<dots> \<longleftrightarrow> contains_ci w t"
    unfolding contains_ci_def by blast
  finally show ?thesis .
qed

lemma match_word_tail:
  "match_here (map Chr v @ [DotStar]) p s \<longleftrightarrow> (\<exists>u' post. s = u' @ post \<and> ci_word v u')"
proof -
  have nb: "WordB \<notin> set [DotStar]" by simp
  show ?thesis by (simp add: match_chrs[OF nb] match_dotstar_end)
qed

lemma search_word_plus_word:
  "search1 (map Chr w @ DotPlus # map Chr v @ [DotStar]) p t \<longleftrightarrow> contains_ci_then w 1 v t"
proof -
  let ?tail = "map Chr v @ [DotStar]"
  have nb: "WordB \<notin> set (map Chr w @ DotPlus # ?tail)" "WordB \<notin> set (DotPlus # ?tail)"
    "WordB \<notin> set ?tail" by auto
  have "search1 (map Chr w @ DotPlus # ?tail) p t \<longleftrightarrow>
        (\<exists>pre s'. t = pre @ s' \<and> (\<exists>u s1. s' = u @ s1 \<and> ci_word w u \<and>
           (\<exists>g s2. s1 = g @ s2 \<and> g \<noteq> [] \<and> 10 \<notin> set g \<and>
              (\<exists>u' post. s2 = u' @ post \<and> ci_word v u'))))"
    by (simp add: search1_iff[OF nb(1)] match_chrs[OF nb(2)] match_dotplus[OF nb(3)]
          match_word_tail)
  also have "\<dots> \<longleftrightarrow> contains_ci_then w 1 v t"
    unfolding contains_ci_then_def
  proof
    assume "\<exists>pre s'. t = pre @ s' \<and> (\<exists>u s1. s' = u @ s1 \<and> ci_word w u \<and>
           (\<exists>g s2. s1 = g @ s2 \<and> g \<noteq> [] \<and> 10 \<notin> set g \<and>
              (\<exists>u' post. s2 = u' @ post \<and> ci_word v u')))"
    then obtain pre u g u' post where
      "t = pre @ u @ g @ u' @ post" "ci_word w u" "ci_word v u'" "g \<noteq> []" "10 \<notin> set g"
      by auto
    moreover from \<open>g \<noteq> []\<close> have "1 \<le> length g" by (cases g) auto
    ultimately show "\<exists>pre u gap u' post. t = pre @ u @ gap @ u' @ post \<and> ci_word w u
        \<and> ci_word v u' \<and> 1 \<le> length gap \<and> 10 \<notin> set gap"
      by blast
  next
    assume "\<exists>pre u gap u' post. t = pre @ u @ gap @ u' @ post \<and> ci_word w u
        \<and> ci_word v u' \<and> 1 \<le> length gap \<and> 10 \<notin> set gap"
    then obtain pre u g u' post where
      h: "t = pre @ u @ g @ u' @ post" "ci_word w u" "ci_word v u'" "1 \<le> length g" "10 \<notin> set g"
      by auto
    from h(4) have "g \<noteq> []" by auto
    with h show "\<exists>pre s'. t = pre @ s' \<and> (\<exists>u s1. s' = u @ s1 \<and> ci_word w u \<and>
           (\<exists>g s2. s1 = g @ s2 \<and> g \<noteq> [] \<and> 10 \<notin> set g \<and>
              (\<exists>u' post. s2 = u' @ post \<and> ci_word v u')))"
      by blast
  qed
  finally show ?thesis .
qed

lemma search_word_star_word:
  "search1 (map Chr w @ DotStar # map Chr v @ [DotStar]) p t \<longleftrightarrow> contains_ci_then w 0 v t"
proof -
  let ?tail = "map Chr v @ [DotStar]"
  have nb: "WordB \<notin> set (map Chr w @ DotStar # ?tail)" "WordB \<notin> set (DotStar # ?tail)"
    "WordB \<notin> set ?tail" by auto
  have "search1 (map Chr w @ DotStar # ?tail) p t \<longleftrightarrow>
        (\<exists>pre s'. t = pre @ s' \<and> (\<exists>u s1. s' = u @ s1 \<and> ci_word w u \<and>
           (\<exists>g s2. s1 = g @ s2 \<and> 10 \<notin> set g \<and>
              (\<exists>u' post. s2 = u' @ post \<and> ci_word v u'))))"
    by (simp add: search1_iff[OF nb(1)] match_chrs[OF nb(2)] match_dotstar[OF nb(3)]
          match_word_tail)
  also have "\<dots> \<longleftrightarrow> contains_ci_then w 0 v t"
    unfolding contains_ci_then_def by (simp) blast
  finally show ?thesis .
qed


lemma re_search_eval: "re_search alts s = list_ex (\<lambda>r. search1 r None s) alts"
  by (simp add: re_search_def search_from_alts)

lemma lit_eq: "lit s = map Chr (asc s)"
  by (simp add: lit_def asc_def)

lemmas rx_defs = rx_data_analyst_def rx_bi_analyst_def rx_product_analyst_def
  rx_web_analyst_def rx_data_engineer_def rx_data_scientist_def

lemmas rx_norm = rx_defs re_search_eval list_ex_Nil_iff list_ex_Cons_iff search1_dotstar simp_thms

lemmas rx_eval = lit_def cyr_def asc_def cy_anal_def cy_dan_def cy_prod_def cy_produkt_def
  cy_veb_def cy_inzhen_def ci_match_def lower_cp_def case_extras_def is_word_def

section \<open>Properties of \<open>categorize_vacancy\<close>\<close>

lemma rx_product_analyst_iff:
  "re_search rx_product_analyst t \<longleftrightarrow>
     contains_ci (asc ''product'') t \<or> contains_ci_then (asc ''prod'') 1 cy_anal t
     \<or> contains_ci_then cy_anal 0 cy_prod t \<or> contains_ci cy_produkt t"
  by (simp only: rx_norm lit_eq cyr_def search_word search_word_plus_word search_word_star_word)

lemma rx_data_analyst_if:
  "contains_ci_then (asc ''data'') 1 (asc ''anal'') t \<Longrightarrow> re_search rx_data_analyst t"
  by (simp only: rx_norm lit_eq cyr_def search_word_plus_word)

lemma labels_distinct:
  "asc ''Data Analyst'' \<noteq> asc ''Product Analyst''"
  "asc ''BI Analyst'' \<noteq> asc ''Product Analyst''"
  "asc ''Web Analyst'' \<noteq> asc ''Product Analyst''"
  "asc ''Data Engineer'' \<noteq> asc ''Product Analyst''"
  "asc ''Data Scientist'' \<noteq> asc ''Product Analyst''"
  "asc ''Other'' \<noteq> asc ''Product Analyst''"
  "asc ''Data Analyst'' \<noteq> asc ''Data Engineer''"
  "asc ''BI Analyst'' \<noteq> asc ''Data Engineer''"
  "asc ''Product Analyst'' \<noteq> asc ''Data Engineer''"
  "asc ''Web Analyst'' \<noteq> asc ''Data Engineer''"
  by (simp_all add: asc_def)

text \<open>
  Claim C6, as the code has it. For a title that the data-analyst and BI-analyst rules do
  not match, \<open>categorize_vacancy\<close> returns \<open>"Product Analyst"\<close> exactly when the title
  contains \<open>product\<close> or its Russian form \<open>produkt\<close> (no analyst term is needed), or
  \<open>prod\<close> followed by at least one character and the Russian \<open>anal\<close>, or the Russian
  \<open>anal\<close> followed by the Russian \<open>prod\<close>; all up to letter case and within one line.
\<close>

theorem categorize_vacancy_product:
  assumes "\<not> re_search rx_data_analyst t" and "\<not> re_search rx_bi_analyst t"
  shows "categorize_vacancy t = asc ''Product Analyst'' \<longleftrightarrow>
           contains_ci (asc ''product'') t \<or> contains_ci cy_produkt t
           \<or> contains_ci_then (asc ''prod'') 1 cy_anal t
           \<or> contains_ci_then cy_anal 0 cy_prod t"
proof -
  have "categorize_vacancy t = asc ''Product Analyst'' \<longleftrightarrow> re_search rx_product_analyst t"
    using assms by (simp add: categorize_vacancy_def labels_distinct)
  then show ?thesis unfolding rx_product_analyst_iff by blast
qed

text \<open>
  Claim C2, as the code has it. The data-analyst rule is tried first: a title that it
  matches is a \<open>"Data Analyst"\<close>, whatever else it contains. A title that matches an
  engineer pattern is a \<open>"Data Engineer"\<close> exactly when none of the four analyst rules
  before it matches. So a title that contains \<open>engin\<close> and also \<open>data\<close> followed later by
  \<open>anal\<close> is a \<open>"Data Analyst"\<close>.
\<close>

theorem categorize_vacancy_engineer:
  "(re_search rx_data_analyst t \<longrightarrow> categorize_vacancy t = asc ''Data Analyst'')
   \<and> (re_search rx_data_engineer t \<longrightarrow>
        (categorize_vacancy t = asc ''Data Engineer'' \<longleftrightarrow>
           \<not> re_search rx_data_analyst t \<and> \<not> re_search rx_bi_analyst t
           \<and> \<not> re_search rx_product_analyst t \<and> \<not> re_search rx_web_analyst t))
   \<and> (contains_ci (asc ''engin'') t \<and> contains_ci_then (asc ''data'') 1 (asc ''anal'') t \<longrightarrow>
        categorize_vacancy t = asc ''Data Analyst'')"
proof (intro conjI impI)
  assume "re_search rx_data_analyst t"
  then show "categorize_vacancy t = asc ''Data Analyst''"
    by (simp add: categorize_vacancy_def)
next
  assume "re_search rx_data_engineer t"
  then show "categorize_vacancy t = asc ''Data Engineer'' \<longleftrightarrow>
           \<not> re_search rx_data_analyst t \<and> \<not> re_search rx_bi_analyst t
           \<and> \<not> re_search rx_product_analyst t \<and> \<not> re_search rx_web_analyst t"
    by (simp add: categorize_vacancy_def labels_distinct)
next
  assume "contains_ci (asc ''engin'') t \<and> contains_ci_then (asc ''data'') 1 (asc ''anal'') t"
  then have "re_search rx_data_analyst t" by (simp add: rx_data_analyst_if)
  then show "categorize_vacancy t = asc ''Data Analyst''"
    by (simp add: categorize_vacancy_def)
qed

lemma contains_ci_eval: "contains_ci w t = search1 (map Chr w @ [DotStar]) None t"
  by (simp add: search_word)

lemma contains_ci_then1_eval:
  "contains_ci_then w 1 v t = search1 (map Chr w @ DotPlus # map Chr v @ [DotStar]) None t"
  by (simp add: search_word_plus_word)

lemma token_da:
  "categorize_vacancy (asc ''DA'') = asc ''Data Analyst''"
  "categorize_vacancy (asc ''da'') = asc ''Data Analyst''"
  "categorize_vacancy (asc ''Da'') = asc ''Data Analyst''"
  "categorize_vacancy (asc ''dA'') = asc ''Data Analyst''"
  unfolding categorize_vacancy_def
  by (simp only: rx_norm, simp add: rx_eval)+

lemma token_bi:
  "categorize_vacancy (asc ''BI'') = asc ''BI Analyst''"
  "categorize_vacancy (asc ''bi'') = asc ''BI Analyst''"
  "categorize_vacancy (asc ''Bi'') = asc ''BI Analyst''"
  "categorize_vacancy (asc ''bI'') = asc ''BI Analyst''"
  unfolding categorize_vacancy_def
  by (simp only: rx_norm, simp add: rx_eval)+

lemma token_de:
  "categorize_vacancy (asc ''DE'') = asc ''Data Engineer''"
  "categorize_vacancy (asc ''de'') = asc ''Data Engineer''"
  "categorize_vacancy (asc ''De'') = asc ''Data Engineer''"
  "categorize_vacancy (asc ''dE'') = asc ''Data Engineer''"
  unfolding categorize_vacancy_def
  by (simp only: rx_norm, simp add: rx_eval)+

lemma token_ds:
  "categorize_vacancy (asc ''DS'') = asc ''Data Scientist''"
  "categorize_vacancy (asc ''ds'') = asc ''Data Scientist''"
  "categorize_vacancy (asc ''Ds'') = asc ''Data Scientist''"
  "categorize_vacancy (asc ''dS'') = asc ''Data Scientist''"
  unfolding categorize_vacancy_def
  by (simp only: rx_norm, simp add: rx_eval)+


text \<open>
  Claim C7. A title that is the token \<open>DA\<close>, in any letter case, is a \<open>"Data Analyst"\<close>;
  likewise \<open>BI\<close> is a \<open>"BI Analyst"\<close>, \<open>DE\<close> a \<open>"Data Engineer"\<close> and \<open>DS\<close> a
  \<open>"Data Scientist"\<close>.
\<close>

theorem categorize_vacancy_tokens:
  "categorize_vacancy (asc ''DA'') = asc ''Data Analyst''
   \<and> categorize_vacancy (asc ''da'') = asc ''Data Analyst''
   \<and> categorize_vacancy (asc ''Da'') = asc ''Data Analyst''
   \<and> categorize_vacancy (asc ''dA'') = asc ''Data Analyst''
   \<and> categorize_vacancy (asc ''BI'') = asc ''BI Analyst''
   \<and> categorize_vacancy (asc ''bi'') = asc ''BI Analyst''
   \<and> categorize_vacancy (asc ''Bi'') = asc ''BI Analyst''
   \<and> categorize_vacancy (asc ''bI'') = asc ''BI Analyst''
   \<and> categorize_vacancy (asc ''DE'') = asc ''Data Engineer''
   \<and> categorize_vacancy (asc ''de'') = asc ''Data Engineer''
   \<and> categorize_vacancy (asc ''De'') = asc ''Data Engineer''
   \<and> categorize_vacancy (asc ''dE'') = asc ''Data Engineer''
   \<and> categorize_vacancy (asc ''DS'') = asc ''Data Scientist''
   \<and> categorize_vacancy (asc ''ds'') = asc ''Data Scientist''
   \<and> categorize_vacancy (asc ''Ds'') = asc ''Data Scientist''
   \<and> categorize_vacancy (asc ''dS'') = asc ''Data Scientist''"
  by (simp only: token_da token_bi token_de token_ds simp_thms)

lemma product_manager_rules:
  "\<not> re_search rx_data_analyst (asc ''Product Manager'')"
  "\<not> re_search rx_bi_analyst (asc ''Product Manager'')"
  "re_search rx_product_analyst (asc ''Product Manager'')"
  by (simp only: rx_norm, simp add: rx_eval)+

lemma product_manager_no_analyst:
  "\<not> contains_ci (asc ''anal'') (asc ''Product Manager'')"
  "\<not> contains_ci cy_anal (asc ''Product Manager'')"
  by (simp_all add: contains_ci_eval rx_eval)

text \<open>
  The title \<open>"Product Manager"\<close> contains no analyst term, no earlier rule matches it, and
  it is classified as \<open>"Product Analyst"\<close>.
\<close>

theorem categorize_vacancy_product_counterexample:
  "categorize_vacancy (asc ''Product Manager'') = asc ''Product Analyst''
   \<and> \<not> re_search rx_data_analyst (asc ''Product Manager'')
   \<and> \<not> re_search rx_bi_analyst (asc ''Product Manager'')
   \<and> \<not> contains_ci (asc ''anal'') (asc ''Product Manager'')
   \<and> \<not> contains_ci cy_anal (asc ''Product Manager'')"
  by (simp add: categorize_vacancy_def product_manager_rules product_manager_no_analyst)

lemma product_owner_rules:
  "\<not> re_search rx_data_analyst (asc ''Product Owner'')"
  "\<not> re_search rx_bi_analyst (asc ''Product Owner'')"
  by (simp only: rx_norm, simp add: rx_eval)+

lemma product_owner_contains: "contains_ci (asc ''product'') (asc ''Product Owner'')"
  by (simp add: contains_ci_eval rx_eval)

text \<open>The theorem of C6 at the title \<open>"Product Owner"\<close>.\<close>

theorem categorize_vacancy_product_witness:
  "\<not> re_search rx_data_analyst (asc ''Product Owner'')
   \<and> \<not> re_search rx_bi_analyst (asc ''Product Owner'')
   \<and> contains_ci (asc ''product'') (asc ''Product Owner'')
   \<and> categorize_vacancy (asc ''Product Owner'') = asc ''Product Analyst''"
  using categorize_vacancy_product[OF product_owner_rules] product_owner_rules
    product_owner_contains
  by simp

lemma engineer_analyst_rules:
  "re_search rx_data_analyst (asc ''Data Engineer/Analyst'')"
  "re_search rx_data_engineer (asc ''Data Engineer/Analyst'')"
  by (simp only: rx_norm, simp add: rx_eval)+

text \<open>
  The title \<open>"Data Engineer/Analyst"\<close> of the claim matches an engineer pattern and an
  analyst pattern, and it is classified as \<open>"Data Analyst"\<close>.
\<close>

theorem categorize_vacancy_engineer_counterexample:
  "re_search rx_data_engineer (asc ''Data Engineer/Analyst'')
   \<and> re_search rx_data_analyst (asc ''Data Engineer/Analyst'')
   \<and> categorize_vacancy (asc ''Data Engineer/Analyst'') = asc ''Data Analyst''
   \<and> asc ''Data Analyst'' \<noteq> asc ''Data Engineer''"
  by (simp add: categorize_vacancy_def engineer_analyst_rules labels_distinct)

lemma data_engineer_rules:
  "\<not> re_search rx_data_analyst (asc ''Data Engineer'')"
  "\<not> re_search rx_bi_analyst (asc ''Data Engineer'')"
  "\<not> re_search rx_product_analyst (asc ''Data Engineer'')"
  "\<not> re_search rx_web_analyst (asc ''Data Engineer'')"
  "re_search rx_data_engineer (asc ''Data Engineer'')"
  by (simp only: rx_norm, simp add: rx_eval)+

lemma analyst_engineer_contains:
  "contains_ci (asc ''engin'') (asc ''Data Analyst/Engineer'')"
  "contains_ci_then (asc ''data'') 1 (asc ''anal'') (asc ''Data Analyst/Engineer'')"
  unfolding contains_ci_eval contains_ci_then1_eval by (simp_all add: rx_eval)

lemma analyst_engineer_rules:
  "re_search rx_data_analyst (asc ''Data Analyst/Engineer'')"
  using analyst_engineer_contains(2) by (rule rx_data_analyst_if)

text \<open>
  The theorem of C2 at the titles \<open>"Data Engineer"\<close> and \<open>"Data Analyst/Engineer"\<close>.
\<close>

theorem categorize_vacancy_engineer_witness:
  "re_search rx_data_engineer (asc ''Data Engineer'')
   \<and> categorize_vacancy (asc ''Data Engineer'') = asc ''Data Engineer''
   \<and> re_search rx_data_analyst (asc ''Data Analyst/Engineer'')
   \<and> contains_ci (asc ''engin'') (asc ''Data Analyst/Engineer'')
   \<and> contains_ci_then (asc ''data'') 1 (asc ''anal'') (asc ''Data Analyst/Engineer'')
   \<and> categorize_vacancy (asc ''Data Analyst/Engineer'') = asc ''Data Analyst''"
  using categorize_vacancy_engineer[of "asc ''Data Engineer''"]
    categorize_vacancy_engineer[of "asc ''Data Analyst/Engineer''"]
    data_engineer_rules analyst_engineer_contains analyst_engineer_rules
  by simp

section \<open>Properties of \<open>str_to_date\<close>\<close>

lemma findall_none: "(\<And>c. c \<in> set s \<Longrightarrow> \<not> P c) \<Longrightarrow> findall_runs P s = []"
  by (induction s) auto

lemma sub_none: "(\<And>c. c \<in> set s \<Longrightarrow> \<not> P c) \<Longrightarrow> sub_runs P repl s = s"
  by (induction s) auto

lemma findall_skip:
  "(\<And>c. c \<in> set a \<Longrightarrow> \<not> P c) \<Longrightarrow> findall_runs P (a @ s) = findall_runs P s"
  by (induction a) auto

lemma sub_skip:
  "(\<And>c. c \<in> set a \<Longrightarrow> \<not> P c) \<Longrightarrow> sub_runs P repl (a @ s) = a @ sub_runs P repl s"
  by (induction a) auto

lemma findall_run:
  assumes "t \<noteq> []" and "\<And>x. x \<in> set t \<Longrightarrow> P x" and "\<not> P y"
  shows "findall_runs P (t @ y # rest) = t # findall_runs P rest"
proof -
  obtain c t' where t: "t = c # t'" using assms(1) by (cases t) auto
  have all: "\<And>x. x \<in> set t' \<Longrightarrow> P x" and c: "P c" using assms(2) t by auto
  have tw: "takeWhile P (t' @ y # rest) = t'"
    using all assms(3) by (simp add: takeWhile_append2)
  have dw: "dropWhile P (t' @ y # rest) = y # rest"
    using all assms(3) by (simp add: dropWhile_append2)
  show ?thesis using c assms(3) by (simp add: t tw dw)
qed

lemma sub_run:
  assumes "t \<noteq> []" and "\<And>x. x \<in> set t \<Longrightarrow> P x" and "\<not> P y"
  shows "sub_runs P repl (t @ y # rest) = repl @ y # sub_runs P repl rest"
proof -
  obtain c t' where t: "t = c # t'" using assms(1) by (cases t) auto
  have all: "\<And>x. x \<in> set t' \<Longrightarrow> P x" and c: "P c" using assms(2) t by auto
  have dw: "dropWhile P (t' @ y # rest) = y # rest"
    using all assms(3) by (simp add: dropWhile_append2)
  show ?thesis using c assms(3) by (simp add: t dw)
qed

lemma month_cases:
  "1 \<le> m \<Longrightarrow> m \<le> 12 \<Longrightarrow> m \<in> set [1, 2, 3, 4, 5, 6, 7, 8, 9, 10, 11, 12 :: nat]"
  by (simp del: One_nat_def) arith

lemma month_facts_all:
  "list_all (\<lambda>m. month_token m \<noteq> [] \<and> list_all is_cyr_lower (month_token m)
      \<and> map_of months (month_token m) = Some (month_number m))
     [1, 2, 3, 4, 5, 6, 7, 8, 9, 10, 11, 12]"
  by (simp add: month_token_def month_number_def months_def is_cyr_lower_def asc_def)

lemma month_facts:
  assumes "1 \<le> m" and "m \<le> 12"
  shows "month_token m \<noteq> []" and "\<And>x. x \<in> set (month_token m) \<Longrightarrow> is_cyr_lower x"
    and "map_of months (month_token m) = Some (month_number m)"
  using month_cases[OF assms] month_facts_all
  unfolding list_all_iff by blast+


lemma day_cases:
  "1 \<le> d \<Longrightarrow> d \<le> 31 \<Longrightarrow>
   d \<in> set [1, 2, 3, 4, 5, 6, 7, 8, 9, 10, 11, 12, 13, 14, 15, 16, 17, 18, 19, 20, 21, 22, 23,
     24, 25, 26, 27, 28, 29, 30, 31 :: nat]"
  by (simp del: One_nat_def) arith

lemmas parser_defs = rx_d_def rx_m_def rx_Y_def then_p_def or_p_def is_digit_def is_digit19_def

lemma rx_d_day_all:
  "list_all (\<lambda>d. (\<exists>others. rx_d (show_day d @ 32 # rest) = (show_day d, 32 # rest) # others)
                \<and> py_int (show_day d) = d)
     [1, 2, 3, 4, 5, 6, 7, 8, 9, 10, 11, 12, 13, 14, 15, 16, 17, 18, 19, 20, 21, 22, 23,
      24, 25, 26, 27, 28, 29, 30, 31]"
  by (simp add: parser_defs show_day_def py_int_def)

lemma rx_d_day:
  assumes "1 \<le> d" and "d \<le> 31"
  shows "\<exists>others. rx_d (show_day d @ 32 # rest) = (show_day d, 32 # rest) # others"
    and "py_int (show_day d) = d"
  using day_cases[OF assms] rx_d_day_all[of rest]
  unfolding list_all_iff by blast+

lemma rx_m_month_all:
  "list_all (\<lambda>m. (\<exists>others. rx_m (month_number m @ 32 # rest) = (month_number m, 32 # rest) # others)
                \<and> py_int (month_number m) = m
                \<and> list_all (\<lambda>c. \<not> is_cyr_lower c \<and> \<not> is_space c) (month_number m)
                \<and> month_number m \<noteq> [])
     [1, 2, 3, 4, 5, 6, 7, 8, 9, 10, 11, 12]"
  by (simp add: parser_defs month_number_def months_def asc_def py_int_def is_cyr_lower_def
        is_space_def)

lemma rx_m_month:
  assumes "1 \<le> m" and "m \<le> 12"
  shows "\<exists>others. rx_m (month_number m @ 32 # rest) = (month_number m, 32 # rest) # others"
    and "py_int (month_number m) = m"
    and "\<And>c. c \<in> set (month_number m) \<Longrightarrow> \<not> is_cyr_lower c \<and> \<not> is_space c"
    and "month_number m \<noteq> []"
  using month_cases[OF assms] rx_m_month_all[of rest]
  unfolding list_all_iff by blast+


lemma decimal4: "(y::nat) = 1000 * (y div 1000) + 100 * (y div 100 mod 10) + 10 * (y div 10 mod 10) + y mod 10"
proof -
  have a: "y = 10 * (y div 10) + y mod 10" by simp
  have b: "y div 10 = 10 * (y div 100) + y div 10 mod 10"
    using div_mult2_eq[of y 10 10] by simp
  have c: "y div 100 = 10 * (y div 1000) + y div 100 mod 10"
    using div_mult2_eq[of y 100 10] by simp
  show ?thesis using a b c by linarith
qed

lemma year_facts:
  assumes "y \<le> 9999"
  shows "rx_Y (show_year y) = [(show_year y, [])]"
    and "py_int (show_year y) = y"
    and "\<And>c. c \<in> set (show_year y) \<Longrightarrow> \<not> is_cyr_lower c \<and> \<not> is_space c"
proof -
  have q: "y div 1000 \<le> 9" using assms by simp
  have m: "y div 100 mod 10 \<le> 9" "y div 10 mod 10 \<le> 9" "y mod 10 \<le> 9"
    by (simp_all add: less_Suc_eq_le[symmetric])
  show "rx_Y (show_year y) = [(show_year y, [])]"
    using q m by (simp add: parser_defs show_year_def)
  show "py_int (show_year y) = y"
    using q m decimal4[of y] by (simp add: py_int_def show_year_def is_digit_def)
  show "\<And>c. c \<in> set (show_year y) \<Longrightarrow> \<not> is_cyr_lower c \<and> \<not> is_space c"
    using q m by (auto simp: show_year_def is_cyr_lower_def is_space_def)
qed

lemma day_chars:
  assumes "d \<le> 31" and "c \<in> set (show_day d)"
  shows "\<not> is_cyr_lower c"
proof -
  have "d div 10 \<le> 3" using assms(1) by simp
  moreover have "d mod 10 \<le> 9" by (simp add: less_Suc_eq_le[symmetric])
  ultimately show ?thesis using assms
    by (auto simp: show_day_def is_cyr_lower_def split: if_splits)
qed

lemma is_space_32: "is_space 32"
  by (simp add: is_space_def)

lemma spaces_plus_one: "\<not> is_space c \<Longrightarrow> spaces_plus (32 # c # rest) = [c # rest]"
  by (simp add: is_space_32)


lemma strptime_numeric:
  assumes d: "1 \<le> d" "d \<le> 31" and m: "1 \<le> m" "m \<le> 12" and y: "y \<le> 9999"
  shows "strptime_dmY (show_day d @ 32 # month_number m @ 32 # show_year y) = make_date y m d"
proof -
  let ?r1 = "month_number m @ 32 # show_year y"
  obtain o1 where p1: "rx_d (show_day d @ 32 # ?r1) = (show_day d, 32 # ?r1) # o1"
    using rx_d_day(1)[OF d] by blast
  obtain c t where mn: "month_number m = c # t"
    using rx_m_month(4)[OF m] by (cases "month_number m") auto
  have "\<not> is_space c" using rx_m_month(3)[OF m, of c] mn by simp
  then have s1: "spaces_plus (32 # ?r1) = [?r1]"
    by (simp add: mn spaces_plus_one is_space_32)
  obtain o2 where p2: "rx_m ?r1 = (month_number m, 32 # show_year y) # o2"
    using rx_m_month(1)[OF m] by blast
  have "\<not> is_space (48 + y div 1000)" using year_facts(3)[OF y] by (simp add: show_year_def)
  then have s2: "spaces_plus (32 # show_year y) = [show_year y]"
    by (simp add: show_year_def spaces_plus_one is_space_32)
  have "\<exists>others. format_matches (show_day d @ 32 # ?r1) =
          ((show_day d, month_number m, show_year y), []) # others"
    by (simp add: format_matches_def p1 s1 p2 s2 year_facts(1)[OF y] del: spaces_plus.simps)
  then show ?thesis
    by (auto simp: strptime_dmY_def rx_d_day(2)[OF d] rx_m_month(2)[OF m] year_facts(2)[OF y])
qed

lemma date_string_runs:
  assumes d: "d \<le> 31" and m: "1 \<le> m" "m \<le> 12" and y: "y \<le> 9999"
  shows "findall_runs is_cyr_lower (date_string d m y) = [month_token m]"
    and "sub_runs is_cyr_lower repl (date_string d m y) = show_day d @ 32 # repl @ 32 # show_year y"
proof -
  have sp: "\<not> is_cyr_lower 32" by (simp add: is_cyr_lower_def)
  have pre: "\<And>c. c \<in> set (show_day d @ [32]) \<Longrightarrow> \<not> is_cyr_lower c"
    using day_chars[OF d] sp by auto
  have yr: "\<And>c. c \<in> set (show_year y) \<Longrightarrow> \<not> is_cyr_lower c"
    using year_facts(3)[OF y] by blast
  have ds: "date_string d m y = (show_day d @ [32]) @ (month_token m @ 32 # show_year y)"
    by (simp add: date_string_def)
  have tok: "month_token m \<noteq> []" "\<And>x. x \<in> set (month_token m) \<Longrightarrow> is_cyr_lower x"
    using month_facts(1,2)[OF m] by blast+
  have run: "findall_runs is_cyr_lower (month_token m @ 32 # show_year y) =
      month_token m # findall_runs is_cyr_lower (show_year y)"
    using tok sp by (rule findall_run)
  have srun: "sub_runs is_cyr_lower repl (month_token m @ 32 # show_year y) =
      repl @ 32 # sub_runs is_cyr_lower repl (show_year y)"
    using tok sp by (rule sub_run)
  show "findall_runs is_cyr_lower (date_string d m y) = [month_token m]"
    unfolding ds by (simp only: findall_skip[OF pre] run findall_none[OF yr])
  show "sub_runs is_cyr_lower repl (date_string d m y) = show_day d @ 32 # repl @ 32 # show_year y"
    unfolding ds by (simp only: sub_skip[OF pre] srun sub_none[OF yr]) simp
qed

lemma days_in_month_le: "days_in_month y m \<le> 31"
  by (simp add: days_in_month_def)

lemma str_to_date_date_string:
  assumes m: "1 \<le> m" "m \<le> 12" and y: "1 \<le> y" "y \<le> 9999"
      and d: "1 \<le> d" "d \<le> days_in_month y m"
  shows "str_to_date (date_string d m y) = Inr \<lparr>year = y, month = m, day = d\<rparr>"
proof -
  have d31: "d \<le> 31" using d(2) days_in_month_le[of y m] by simp
  have "str_to_date (date_string d m y) =
        strptime_dmY (show_day d @ 32 # month_number m @ 32 # show_year y)"
    by (simp add: str_to_date_def date_string_runs[OF d31 m y(2)] month_facts(3)[OF m])
  also have "\<dots> = make_date y m d"
    using d(1) d31 m y(2) by (rule strptime_numeric)
  also have "\<dots> = Inr \<lparr>year = y, month = m, day = d\<rparr>"
    using m y d by (simp add: make_date_def)
  finally show ?thesis .
qed

lemma str_to_date_key_error:
  "map_of months (concat (findall_runs is_cyr_lower s)) = None \<Longrightarrow> str_to_date s = Inl KeyError"
  by (simp add: str_to_date_def)

lemma months_no_empty_key: "map_of months [] = None"
  by (simp add: months_def)

text \<open>
  Claim C8, as the code has it. \<open>str_to_date\<close> maps the string of 15, the genitive of
  March and 2024 (given by its code points) to the date 2024-03-15, and every string
  \<open><day> <month-name> <year>\<close> of a calendar date of the years 1 to 9999, with one of the
  twelve month tokens, to that date. It fails with \<open>KeyError\<close> whenever the runs of
  lower-case Cyrillic letters of the string, joined, are not one of the twelve tokens, in
  particular for every string without a lower-case Cyrillic letter.
\<close>

theorem str_to_date_result:
  "str_to_date [49, 53, 32, 1084, 1072, 1088, 1090, 1072, 32, 50, 48, 50, 52]
     = Inr \<lparr>year = 2024, month = 3, day = 15\<rparr>
   \<and> (\<forall>d m y. 1 \<le> m \<and> m \<le> 12 \<and> 1 \<le> y \<and> y \<le> 9999 \<and> 1 \<le> d \<and> d \<le> days_in_month y m \<longrightarrow>
         str_to_date (date_string d m y) = Inr \<lparr>year = y, month = m, day = d\<rparr>)
   \<and> (\<forall>s. concat (findall_runs is_cyr_lower s) \<notin> fst ` set months \<longrightarrow>
         str_to_date s = Inl KeyError)
   \<and> (\<forall>s. (\<forall>c \<in> set s. \<not> is_cyr_lower c) \<longrightarrow> str_to_date s = Inl KeyError)"
proof (intro conjI allI impI)
  have "date_string 15 3 2024 = [49, 53, 32, 1084, 1072, 1088, 1090, 1072, 32, 50, 48, 50, 52]"
    by (simp add: date_string_def show_day_def show_year_def month_token_def months_def)
  moreover have "str_to_date (date_string 15 3 2024) = Inr \<lparr>year = 2024, month = 3, day = 15\<rparr>"
    by (rule str_to_date_date_string) (simp_all add: days_in_month_def)
  ultimately show "str_to_date [49, 53, 32, 1084, 1072, 1088, 1090, 1072, 32, 50, 48, 50, 52]
     = Inr \<lparr>year = 2024, month = 3, day = 15\<rparr>"
    by simp
next
  fix d m y :: nat
  assume "1 \<le> m \<and> m \<le> 12 \<and> 1 \<le> y \<and> y \<le> 9999 \<and> 1 \<le> d \<and> d \<le> days_in_month y m"
  then show "str_to_date (date_string d m y) = Inr \<lparr>year = y, month = m, day = d\<rparr>"
    by (intro str_to_date_date_string) simp_all
next
  fix s assume "concat (findall_runs is_cyr_lower s) \<notin> fst ` set months"
  then have "map_of months (concat (findall_runs is_cyr_lower s)) = None"
    by (simp add: map_of_eq_None_iff)
  then show "str_to_date s = Inl KeyError" by (rule str_to_date_key_error)
next
  fix s assume "\<forall>c \<in> set s. \<not> is_cyr_lower c"
  then have "findall_runs is_cyr_lower s = []" by (intro findall_none) simp
  then show "str_to_date s = Inl KeyError"
    by (simp add: str_to_date_key_error months_no_empty_key)
qed


lemmas strptime_eval = str_to_date_def months_def asc_def is_cyr_lower_def strptime_dmY_def
  format_matches_def parser_defs is_space_def py_int_def make_date_def days_in_month_def is_leap_def

text \<open>
  The string of the letter \<open>m\<close>, a space, the letters \<open>a ya\<close>, a space and 2024 (code
  points 1084, 32, 1072 1103, 32, ...) contains none of the twelve month tokens. Its two
  runs of letters join to the token of May, both runs are replaced by 5, and the result
  \<open>5 5 2024\<close> parses: no error is raised.
\<close>

theorem str_to_date_token_counterexample:
  "\<not> list_ex (\<lambda>k. occurs k [1084, 32, 1072, 1103, 32, 50, 48, 50, 52]) (map fst months)
   \<and> str_to_date [1084, 32, 1072, 1103, 32, 50, 48, 50, 52]
       = Inr \<lparr>year = 2024, month = 5, day = 5\<rparr>"
proof -
  have a: "\<not> list_ex (\<lambda>k. occurs k [1084, 32, 1072, 1103, 32, 50, 48, 50, 52]) (map fst months)"
    by (simp add: months_def)
  have b: "str_to_date [1084, 32, 1072, 1103, 32, 50, 48, 50, 52]
       = Inr \<lparr>year = 2024, month = 5, day = 5\<rparr>"
    by (simp add: strptime_eval)
  from a b show ?thesis by simp
qed

text \<open>
  The theorem of C8 at the 29th of February 2024, at a string with the nominative of
  March (not a key of the dictionary), and at an English date.
\<close>

theorem str_to_date_result_witness:
  "str_to_date (date_string 29 2 2024) = Inr \<lparr>year = 2024, month = 2, day = 29\<rparr>
   \<and> str_to_date [49, 53, 32, 1084, 1072, 1088, 1090, 32, 50, 48, 50, 52] = Inl KeyError
   \<and> str_to_date (asc ''15 March 2024'') = Inl KeyError"
proof -
  have h1: "(1::nat) \<le> 2 \<and> (2::nat) \<le> 12 \<and> (1::nat) \<le> 2024 \<and> (2024::nat) \<le> 9999
      \<and> (1::nat) \<le> 29 \<and> 29 \<le> days_in_month 2024 2"
    by (simp add: days_in_month_def is_leap_def)
  have h2: "concat (findall_runs is_cyr_lower [49, 53, 32, 1084, 1072, 1088, 1090, 32, 50, 48, 50, 52])
      \<notin> fst ` set months"
    by (simp add: is_cyr_lower_def months_def)
  have h3: "\<forall>c \<in> set (asc ''15 March 2024''). \<not> is_cyr_lower c"
    by (simp add: asc_def is_cyr_lower_def)
  from str_to_date_result h1 have a: "str_to_date (date_string 29 2 2024)
      = Inr \<lparr>year = 2024, month = 2, day = 29\<rparr>"
    by blast
  from str_to_date_result h2 have b:
    "str_to_date [49, 53, 32, 1084, 1072, 1088, 1090, 32, 50, 48, 50, 52] = Inl KeyError"
    by blast
  from str_to_date_result h3 have c: "str_to_date (asc ''15 March 2024'') = Inl KeyError"
    by blast
  from a b c show ?thesis by simp
qed


section \<open>Writing and reloading\<close>
















end
